theory Spec2Isabelle
  imports Complex_Main
begin

section \<open>Pipeline-level operations (pipeline_ops.py)\<close>

text \<open>
  A shallow embedding of \<^verbatim>\<open>tfx/orchestration/experimental/core/pipeline_ops.py\<close>.
  The module drives pipelines through a metadata store (MLMD) and a task queue. Its
  collaborators (\<^verbatim>\<open>pipeline_state\<close>, \<^verbatim>\<open>task\<close>, \<^verbatim>\<open>task_queue\<close>,
  \<^verbatim>\<open>task_gen_utils\<close>, \<^verbatim>\<open>execution_lib\<close>, \<^verbatim>\<open>status\<close>, the two task generators and
  the protocol buffers) are not among the source files. The small, pure ones are modelled
  from the specification, each under a comment that says so; the ones that may fail for
  reasons of their own (loading and committing a \<^verbatim>\<open>PipelineState\<close>, running a task
  generator) are parameters of the functions that call them.

  Mutation is explicit state passing: a function that writes to the store or the queue
  returns them. An exception is the left injection of a sum; a function that can raise
  after it has written returns the sum together with the state it leaves behind.
\<close>

subsection \<open>Identifiers, the pipeline IR, tasks\<close>

text \<open>
  Modelled from the spec: \<^verbatim>\<open>task_lib.PipelineUid\<close> and \<^verbatim>\<open>task_lib.NodeUid\<close>
  (``\<open>(PipelineId, NodeId)\<close> is globally unique''); the test constructs
  \<^verbatim>\<open>NodeUid(node_id=..., pipeline_uid=...)\<close>.
\<close>

datatype PipelineUid = PipelineUid (pipeline_id: string)

datatype NodeUid = NodeUid (pipeline_uid: PipelineUid) (node_id: string)

text \<open>
  Modelled from the spec: \<^verbatim>\<open>pipeline_pb2.Pipeline.ExecutionMode\<close>. The spec names
  \<open>SYNC\<close> and \<open>ASYNC\<close> and speaks of ``unknown modes''; a protocol-buffer enum field
  can hold any other number, which is \<open>OTHER_MODE\<close> here.
\<close>

datatype ExecutionMode = SYNC | ASYNC | OTHER_MODE nat

text \<open>
  Modelled from the spec: \<^verbatim>\<open>pipeline_pb2.PipelineNode\<close> with its \<^verbatim>\<open>node_info.id\<close>, and
  whether the node's role admits a runnable executor (the spec's ``feasible node''), which
  \<^verbatim>\<open>task_gen_utils.is_feasible_node\<close> reads off the node.
\<close>

record PipelineNode =
  node_info_id :: string
  runnable :: bool

text \<open>
  Modelled from the spec: \<^verbatim>\<open>pipeline_pb2.Pipeline\<close>, ``ordered list of nodes with
  their dependencies and execution mode''; the test sets \<^verbatim>\<open>pipeline_info.id\<close>,
  \<^verbatim>\<open>execution_mode\<close> and \<^verbatim>\<open>nodes\<close>.
\<close>

record Pipeline =
  pipeline_info_id :: string
  execution_mode :: ExecutionMode
  nodes :: "PipelineNode list"

text \<open>Modelled from the spec: \<^verbatim>\<open>pstate.get_all_pipeline_nodes\<close>, ``every IR node''.\<close>

definition get_all_pipeline_nodes :: "Pipeline \<Rightarrow> PipelineNode list" where
  "get_all_pipeline_nodes pipeline = nodes pipeline"

text \<open>Modelled from the spec: \<^verbatim>\<open>PipelineUid.from_pipeline\<close>, the uid of the pipeline's id.\<close>

definition PipelineUid_from_pipeline :: "Pipeline \<Rightarrow> PipelineUid" where
  "PipelineUid_from_pipeline pipeline = PipelineUid (pipeline_info_id pipeline)"

text \<open>Modelled from the spec: \<^verbatim>\<open>NodeUid.from_pipeline_node\<close>, the pair of the pipeline's uid and
  the node's id.\<close>

definition NodeUid_from_pipeline_node :: "Pipeline \<Rightarrow> PipelineNode \<Rightarrow> NodeUid" where
  "NodeUid_from_pipeline_node pipeline node =
     NodeUid (PipelineUid_from_pipeline pipeline) (node_info_id node)"

text \<open>
  Modelled from the spec: the two task variants \<^verbatim>\<open>ExecNodeTask{node, is_cancelled}\<close> and
  \<^verbatim>\<open>CancelNodeTask{node}\<close>, each with ``a deterministic id derived from
  \<open>(PipelineId, NodeId)\<close>''; the id carries the variant, since the spec speaks of ``the
  node's deterministic ExecNodeTask id''.
\<close>

datatype Task =
    ExecNodeTask (task_node_uid: NodeUid) (is_cancelled: bool)
  | CancelNodeTask (task_node_uid: NodeUid)

text \<open>Modelled from the spec: a task id, the variant's name with the uid of the node.\<close>

type_synonym TaskId = "string \<times> NodeUid"

text \<open>Modelled from the spec: the \<^verbatim>\<open>task_id\<close> property of a task.\<close>

fun task_id :: "Task \<Rightarrow> TaskId" where
  "task_id (ExecNodeTask uid c) = (''ExecNodeTask'', uid)"
| "task_id (CancelNodeTask uid) = (''CancelNodeTask'', uid)"

text \<open>Modelled from the spec: \<^verbatim>\<open>task_lib.exec_node_task_id_from_pipeline_node\<close>, the id that
  the \<open>ExecNodeTask\<close> of the node has.\<close>

definition exec_node_task_id_from_pipeline_node :: "Pipeline \<Rightarrow> PipelineNode \<Rightarrow> TaskId" where
  "exec_node_task_id_from_pipeline_node pipeline node =
     (''ExecNodeTask'', NodeUid_from_pipeline_node pipeline node)"

text \<open>
  Modelled from the spec: \<^verbatim>\<open>tq.TaskQueue\<close>, ``FIFO of tasks keyed by task id'' with
  \<^verbatim>\<open>enqueue(task)\<close> and \<^verbatim>\<open>contains_task_id(id)\<close>; the queue ``holds tasks until an
  executor acknowledges''.
\<close>

type_synonym TaskQueue = "Task list"

text \<open>Modelled from the spec: \<^verbatim>\<open>TaskQueue.enqueue\<close>, at the end of the queue.\<close>

definition enqueue :: "TaskQueue \<Rightarrow> Task \<Rightarrow> TaskQueue" where
  "enqueue task_queue task = task_queue @ [task]"

text \<open>Modelled from the spec: \<^verbatim>\<open>TaskQueue.contains_task_id\<close>.\<close>

definition contains_task_id :: "TaskQueue \<Rightarrow> TaskId \<Rightarrow> bool" where
  "contains_task_id task_queue tid \<longleftrightarrow> tid \<in> set (map task_id task_queue)"

subsection \<open>Status codes and exceptions\<close>

text \<open>Modelled from the spec: \<^verbatim>\<open>status_lib.Code\<close>, the closed set of section 7.\<close>

datatype Code =
  OK | UNKNOWN | NOT_FOUND | ALREADY_EXISTS | FAILED_PRECONDITION | INTERNAL | DEADLINE_EXCEEDED

text \<open>
  A message is the f-string that builds it: literal text and the values formatted into it,
  which are kept as values (how Python prints a uid, a float or an enum is not modelled).
\<close>

datatype Part =
    Lit string
  | UidOfPipeline PipelineUid
  | UidOfNode NodeUid
  | Float real
  | Mode ExecutionMode

text \<open>A message, in the order of its parts.\<close>

type_synonym Message = "Part list"

text \<open>
  The exceptions of class \<^verbatim>\<open>Exception\<close>: \<^verbatim>\<open>status_lib.StatusNotOkError\<close> with its code and
  message, and any other one, with its class name and \<^verbatim>\<open>str(e)\<close>.
\<close>

datatype Exn =
    StatusNotOkError Code Message
  | PyException string Message

text \<open>Python's \<^verbatim>\<open>str(e)\<close>.\<close>

fun str :: "Exn \<Rightarrow> Message" where
  "str (StatusNotOkError c msg) = msg"
| "str (PyException cls msg) = msg"

text \<open>
  The two exceptions of Python itself that the module can raise: that of a failed
  \<^verbatim>\<open>assert\<close>, which has no message, and that of \<^verbatim>\<open>[0]\<close> on an empty list.
\<close>

definition AssertionError :: Exn where
  "AssertionError = PyException ''AssertionError'' []"

definition IndexError :: Exn where
  "IndexError = PyException ''IndexError'' [Lit ''list index out of range'']"

text \<open>
  \<^verbatim>\<open>_to_status_not_ok_error\<close>: the decorator around a call of the function named
  \<open>fn_name\<close>, applied to the call's outcome. The outcome carries the state that the call
  leaves behind in its second component, which the decorator does not touch.
\<close>

fun to_status_not_ok_error :: "string \<Rightarrow> (Exn + 'a) \<times> 's \<Rightarrow> (Exn + 'a) \<times> 's" where
  "to_status_not_ok_error fn_name (Inr v, s) = (Inr v, s)"
| "to_status_not_ok_error fn_name (Inl (StatusNotOkError c msg), s) =
     (Inl (StatusNotOkError c msg), s)"
| "to_status_not_ok_error fn_name (Inl (PyException cls msg), s) =
     (Inl (StatusNotOkError UNKNOWN
        (Lit (''`'' @ fn_name @ ''` error: '') # str (PyException cls msg))), s)"

subsection \<open>The metadata store\<close>

text \<open>
  Modelled from the spec: \<^verbatim>\<open>metadata_store_pb2.Execution\<close>, a ``durable record with a
  \<open>last_known_state\<close> drawn from \<open>{NEW, RUNNING, COMPLETE, CANCELED, FAILED}\<close> plus a
  property bag used to record stop-initiation flags (pipeline-wide and per-node)''.
\<close>

datatype State = NEW | RUNNING | COMPLETE | CANCELED | FAILED

record Execution =
  exec_id :: nat
  last_known_state :: State
  stop_initiated :: bool
  node_stop_initiated :: "NodeUid list"

text \<open>Modelled from the spec: \<^verbatim>\<open>execution_lib.is_execution_active\<close>, ``active means
  \<open>NEW\<close> or \<open>RUNNING\<close>''.\<close>

definition is_execution_active :: "Execution \<Rightarrow> bool" where
  "is_execution_active e \<longleftrightarrow> last_known_state e = NEW \<or> last_known_state e = RUNNING"

text \<open>Modelled from the spec: an OrchestratorContext, ``pairing a PipelineId with one
  PipelineExecution''.\<close>

record Context =
  context_id :: nat
  context_name :: string

text \<open>
  Modelled from the spec: the store behind \<^verbatim>\<open>mlmd_handle\<close>, with the capabilities of
  section 6: the contexts of the orchestrator type, executions by id, the executions of a
  node, and the upsert of an execution.
\<close>

record Mlmd =
  orchestrator_contexts :: "Context list"
  executions :: "nat \<rightharpoonup> Execution"
  node_execution_ids :: "PipelineNode \<Rightarrow> nat list"

text \<open>Modelled from the spec: \<^verbatim>\<open>pstate.get_orchestrator_contexts\<close>, ``list contexts of the
  orchestrator type''.\<close>

definition get_orchestrator_contexts :: "Mlmd \<Rightarrow> Context list" where
  "get_orchestrator_contexts m = orchestrator_contexts m"

text \<open>Modelled from the spec: \<^verbatim>\<open>store.get_executions_by_id\<close>, the records that the store
  holds for the ids, in their order; an id without a record yields none.\<close>

definition get_executions_by_id :: "Mlmd \<Rightarrow> nat list \<Rightarrow> Execution list" where
  "get_executions_by_id m ids = List.map_filter (executions m) ids"

text \<open>Modelled from the spec: \<^verbatim>\<open>store.put_executions\<close>, the upsert of each execution under
  its id.\<close>

definition put_executions :: "Mlmd \<Rightarrow> Execution list \<Rightarrow> Mlmd" where
  "put_executions m es = foldl (\<lambda>m e. m\<lparr>executions := (executions m)(exec_id e \<mapsto> e)\<rparr>) m es"

text \<open>Modelled from the spec: \<^verbatim>\<open>task_gen_utils.get_executions\<close>, ``read the node's
  executions''.\<close>

definition get_executions :: "Mlmd \<Rightarrow> PipelineNode \<Rightarrow> Execution list" where
  "get_executions m node = get_executions_by_id m (node_execution_ids m node)"

text \<open>Modelled from the spec: \<^verbatim>\<open>task_gen_utils.is_feasible_node\<close>, a node is feasible
  when it has a ``runnable executor-backed role''.\<close>

definition is_feasible_node :: "PipelineNode \<Rightarrow> bool" where
  "is_feasible_node node \<longleftrightarrow> runnable node"

text \<open>
  Modelled from the spec: \<^verbatim>\<open>task_gen_utils.generate_task_from_active_execution\<close>. The
  spec's words for its use in the cancellation step: ``read the node's executions; if
  exactly one is active, enqueue a synthetic \<open>ExecNodeTask\<close> with \<open>is_cancelled = true\<close>
  [...] Otherwise return \<open>false\<close>''. So the helper yields a task for the node when exactly
  one of the executions is active, and nothing otherwise.
\<close>

definition generate_task_from_active_execution ::
  "Mlmd \<Rightarrow> Pipeline \<Rightarrow> PipelineNode \<Rightarrow> Execution list \<Rightarrow> bool \<Rightarrow> Task option" where
  "generate_task_from_active_execution m pipeline node execs cancelled =
     (case filter is_execution_active execs of
        [e] \<Rightarrow> Some (ExecNodeTask (NodeUid_from_pipeline_node pipeline node) cancelled)
      | _ \<Rightarrow> None)"

subsection \<open>Cancellation of a node\<close>

text \<open>\<^verbatim>\<open>_maybe_enqueue_cancellation_task\<close>: the returned flag and the queue it leaves.\<close>

definition maybe_enqueue_cancellation_task ::
  "Mlmd \<Rightarrow> Pipeline \<Rightarrow> PipelineNode \<Rightarrow> TaskQueue \<Rightarrow> bool \<times> TaskQueue" where
  "maybe_enqueue_cancellation_task m pipeline node task_queue =
     (if \<not> is_feasible_node node then (False, task_queue)
      else
        let exec_node_task_id = exec_node_task_id_from_pipeline_node pipeline node in
        if contains_task_id task_queue exec_node_task_id then
          (True, enqueue task_queue (CancelNodeTask (NodeUid_from_pipeline_node pipeline node)))
        else
          let execs = get_executions m node;
              exec_node_task = generate_task_from_active_execution m pipeline node execs True
          in (case exec_node_task of
                Some task \<Rightarrow> (True, enqueue task_queue task)
              | None \<Rightarrow> (False, task_queue)))"

subsection \<open>The pipeline state\<close>

text \<open>
  Modelled from the spec: the accessors of \<^verbatim>\<open>pstate.PipelineState\<close>, ``a handle to
  exactly one PipelineExecution and its associated OrchestratorContext'' that exposes
  \<^verbatim>\<open>pipeline\<close> (the IR), \<^verbatim>\<open>execution\<close>, \<^verbatim>\<open>context\<close> and \<^verbatim>\<open>pipeline_uid\<close>. The stop
  flags are read from the execution's property bag.
\<close>

record PipelineState =
  pipeline :: Pipeline
  execution :: Execution
  mlmd_context :: Context

text \<open>Modelled from the spec: the \<^verbatim>\<open>pipeline_uid\<close> of a pipeline state, the uid of its
  pipeline.\<close>

definition state_pipeline_uid :: "PipelineState \<Rightarrow> PipelineUid" where
  "state_pipeline_uid pipeline_state = PipelineUid_from_pipeline (pipeline pipeline_state)"

text \<open>Modelled from the spec: \<^verbatim>\<open>PipelineState.is_stop_initiated\<close> reads the pipeline-wide
  flag.\<close>

definition is_stop_initiated :: "PipelineState \<Rightarrow> bool" where
  "is_stop_initiated pipeline_state \<longleftrightarrow> stop_initiated (execution pipeline_state)"

text \<open>Modelled from the spec: \<^verbatim>\<open>PipelineState.is_node_stop_initiated\<close> reads the flag of
  the node.\<close>

definition is_node_stop_initiated :: "PipelineState \<Rightarrow> NodeUid \<Rightarrow> bool" where
  "is_node_stop_initiated pipeline_state node_uid \<longleftrightarrow>
     node_uid \<in> set (node_stop_initiated (execution pipeline_state))"

text \<open>
  The operations of \<^verbatim>\<open>pstate.PipelineState\<close> that read or write the store or can fail
  are parameters: \<open>new\<close> and the two loads acquire a state (\<open>new\<close> writes the store),
  the three \<open>initiate\<close> operations change the flags of an acquired state, and
  \<open>commit\<close> is what leaving the \<^verbatim>\<open>with\<close> block does (the spec: ``on release it writes
  back any mutations'').
\<close>

record PipelineStateOps =
  new :: "Mlmd \<Rightarrow> Pipeline \<Rightarrow> (Exn + PipelineState) \<times> Mlmd"
  load :: "Mlmd \<Rightarrow> PipelineUid \<Rightarrow> Exn + PipelineState"
  load_from_orchestrator_context :: "Mlmd \<Rightarrow> Context \<Rightarrow> Exn + PipelineState"
  initiate_stop :: "PipelineState \<Rightarrow> Exn + PipelineState"
  initiate_node_start :: "PipelineState \<Rightarrow> NodeUid \<Rightarrow> Exn + PipelineState"
  initiate_node_stop :: "PipelineState \<Rightarrow> NodeUid \<Rightarrow> Exn + PipelineState"
  commit :: "Mlmd \<Rightarrow> PipelineState \<Rightarrow> (Exn + PipelineState) \<times> Mlmd"

text \<open>
  \<^verbatim>\<open>with acquired as pipeline_state: body\<close>. The state is committed when the block is
  left, by its end or by an exception; an exception of the body is raised again after the
  commit, an exception of the commit replaces it. The block's value is the body's result
  and the state as committed.
\<close>

definition with_pipeline_state ::
  "PipelineStateOps \<Rightarrow> Mlmd \<Rightarrow> Exn + PipelineState \<Rightarrow>
   (PipelineState \<Rightarrow> (Exn + 'a) \<times> PipelineState) \<Rightarrow> (Exn + 'a \<times> PipelineState) \<times> Mlmd" where
  "with_pipeline_state ops m acquired body =
     (case acquired of
        Inl e \<Rightarrow> (Inl e, m)
      | Inr pipeline_state \<Rightarrow>
          (case body pipeline_state of (r, pipeline_state') \<Rightarrow>
             (case commit ops m pipeline_state' of
                (Inl e', m') \<Rightarrow> (Inl e', m')
              | (Inr committed, m') \<Rightarrow>
                  (case r of Inl e \<Rightarrow> (Inl e, m') | Inr v \<Rightarrow> (Inr (v, committed), m')))))"

subsection \<open>The reconciliation tick\<close>

text \<open>\<^verbatim>\<open>_get_pipeline_states\<close>: the loop over the contexts, \<open>result\<close> its accumulator.\<close>

fun get_pipeline_states_loop ::
  "(Context \<Rightarrow> Exn + PipelineState) \<Rightarrow> Context list \<Rightarrow> PipelineState list \<Rightarrow>
   Exn + PipelineState list" where
  "get_pipeline_states_loop load_ctx [] result = Inr result"
| "get_pipeline_states_loop load_ctx (ctx # contexts) result =
     (case load_ctx ctx of
        Inl (StatusNotOkError c msg) \<Rightarrow>
          if c = NOT_FOUND then get_pipeline_states_loop load_ctx contexts result
          else Inl (StatusNotOkError c msg)
      | Inl (PyException cls msg) \<Rightarrow> Inl (PyException cls msg)
      | Inr pipeline_state \<Rightarrow>
          get_pipeline_states_loop load_ctx contexts (result @ [pipeline_state]))"

definition get_pipeline_states :: "PipelineStateOps \<Rightarrow> Mlmd \<Rightarrow> Exn + PipelineState list" where
  "get_pipeline_states ops m =
     get_pipeline_states_loop (load_from_orchestrator_context ops m)
       (get_orchestrator_contexts m) []"

text \<open>
  The classification loop of \<^verbatim>\<open>generate_tasks\<close>, with its two lists as accumulators.
\<close>

fun classify ::
  "PipelineState list \<Rightarrow> PipelineState list \<Rightarrow> PipelineState list \<Rightarrow>
   Exn + PipelineState list \<times> PipelineState list" where
  "classify [] active_pipeline_states stop_initiated_pipeline_states =
     Inr (active_pipeline_states, stop_initiated_pipeline_states)"
| "classify (pipeline_state # rest) active_pipeline_states stop_initiated_pipeline_states =
     (if is_stop_initiated pipeline_state then
        classify rest active_pipeline_states (stop_initiated_pipeline_states @ [pipeline_state])
      else if is_execution_active (execution pipeline_state) then
        classify rest (active_pipeline_states @ [pipeline_state]) stop_initiated_pipeline_states
      else
        Inl (StatusNotOkError INTERNAL
          [Lit ''Found pipeline (uid: '', UidOfPipeline (state_pipeline_uid pipeline_state),
           Lit '') which is neither active nor stop-initiated.'']))"

text \<open>
  \<^verbatim>\<open>_process_stop_initiated_pipelines\<close>. The inner loop over the nodes carries the queue
  and the flag \<open>has_active_executions\<close>; it calls
  \<^verbatim>\<open>_maybe_enqueue_cancellation_task\<close> for every node, whatever the flag.
\<close>

fun cancel_all_nodes ::
  "Mlmd \<Rightarrow> Pipeline \<Rightarrow> PipelineNode list \<Rightarrow> TaskQueue \<Rightarrow> bool \<Rightarrow> bool \<times> TaskQueue" where
  "cancel_all_nodes m p [] task_queue has_active_executions =
     (has_active_executions, task_queue)"
| "cancel_all_nodes m p (node # rest) task_queue has_active_executions =
     (case maybe_enqueue_cancellation_task m p node task_queue of
        (enqueued, task_queue') \<Rightarrow>
          cancel_all_nodes m p rest task_queue'
            (if enqueued then True else has_active_executions))"

fun process_stop_initiated_pipelines ::
  "Mlmd \<Rightarrow> TaskQueue \<Rightarrow> PipelineState list \<Rightarrow> Mlmd \<times> TaskQueue" where
  "process_stop_initiated_pipelines m task_queue [] = (m, task_queue)"
| "process_stop_initiated_pipelines m task_queue (pipeline_state # rest) =
     (case cancel_all_nodes m (pipeline pipeline_state)
             (get_all_pipeline_nodes (pipeline pipeline_state)) task_queue False of
        (has_active_executions, task_queue') \<Rightarrow>
          process_stop_initiated_pipelines
            (if \<not> has_active_executions then
               put_executions m [(execution pipeline_state)\<lparr>last_known_state := CANCELED\<rparr>]
             else m)
            task_queue' rest)"

text \<open>\<^verbatim>\<open>_get_stop_initiated_nodes\<close>.\<close>

definition get_stop_initiated_nodes :: "PipelineState \<Rightarrow> PipelineNode list" where
  "get_stop_initiated_nodes pipeline_state =
     filter
       (\<lambda>node. is_node_stop_initiated pipeline_state
          (NodeUid_from_pipeline_node (pipeline pipeline_state) node))
       (get_all_pipeline_nodes (pipeline pipeline_state))"

text \<open>
  The two task generators, as constructed: the store handle, the IR, the queue's
  \<^verbatim>\<open>contains_task_id\<close> and, for the asynchronous one, the ids of the stop-initiated
  nodes. What \<^verbatim>\<open>generate()\<close> does with them is a parameter of the tick; it returns the
  batch of tasks or raises, and the store as it leaves it (the spec: it ``may create new
  NodeExecution records'').
\<close>

datatype Generator =
    SyncPipelineTaskGenerator Mlmd Pipeline "TaskId \<Rightarrow> bool"
  | AsyncPipelineTaskGenerator Mlmd Pipeline "TaskId \<Rightarrow> bool" "string set"

text \<open>Lines 317 to 330 of \<^verbatim>\<open>_process_active_pipelines\<close>: the choice of generator.\<close>

definition init_task_generator ::
  "Mlmd \<Rightarrow> TaskQueue \<Rightarrow> Pipeline \<Rightarrow> PipelineNode list \<Rightarrow> Exn + Generator" where
  "init_task_generator m task_queue p stop_initiated_nodes =
     (if execution_mode p = SYNC then
        Inr (SyncPipelineTaskGenerator m p (contains_task_id task_queue))
      else if execution_mode p = ASYNC then
        Inr (AsyncPipelineTaskGenerator m p (contains_task_id task_queue)
               (set (map node_info_id stop_initiated_nodes)))
      else
        Inl (StatusNotOkError FAILED_PRECONDITION
          [Lit ''Only SYNC and ASYNC pipeline execution modes supported; found pipeline with execution mode: '',
           Mode (execution_mode p)]))"

text \<open>
  \<^verbatim>\<open>_process_active_pipelines\<close>. An exception ends the loop and leaves the store and the
  queue as they are at that moment.
\<close>

fun process_active_pipelines ::
  "(Generator \<Rightarrow> (Exn + Task list) \<times> Mlmd) \<Rightarrow> Mlmd \<Rightarrow> TaskQueue \<Rightarrow> PipelineState list \<Rightarrow>
   (Exn + unit) \<times> Mlmd \<times> TaskQueue" where
  "process_active_pipelines generate m task_queue [] = (Inr (), m, task_queue)"
| "process_active_pipelines generate m task_queue (pipeline_state # rest) =
     (let p = pipeline pipeline_state; e = execution pipeline_state in
      if \<not> (last_known_state e = NEW \<or> last_known_state e = RUNNING) then
        (Inl AssertionError, m, task_queue)
      else
        let m1 = (if last_known_state e \<noteq> RUNNING then
                    put_executions m [e\<lparr>last_known_state := RUNNING\<rparr>]
                  else m);
            stop_initiated_nodes = get_stop_initiated_nodes pipeline_state;
            task_queue1 =
              foldl (\<lambda>q node. snd (maybe_enqueue_cancellation_task m1 p node q))
                task_queue stop_initiated_nodes
        in (case init_task_generator m1 task_queue1 p stop_initiated_nodes of
              Inl err \<Rightarrow> (Inl err, m1, task_queue1)
            | Inr generator \<Rightarrow>
                (case generate generator of
                   (Inl err, m2) \<Rightarrow> (Inl err, m2, task_queue1)
                 | (Inr tasks, m2) \<Rightarrow>
                     process_active_pipelines generate m2 (foldl enqueue task_queue1 tasks)
                       rest)))"

text \<open>
  The body of \<^verbatim>\<open>generate_tasks\<close>, inside its two decorators: the outcome, the store and
  the queue.
\<close>

definition generate_tasks_body ::
  "PipelineStateOps \<Rightarrow> (Generator \<Rightarrow> (Exn + Task list) \<times> Mlmd) \<Rightarrow> Mlmd \<Rightarrow> TaskQueue \<Rightarrow>
   (Exn + unit) \<times> Mlmd \<times> TaskQueue" where
  "generate_tasks_body ops generate m task_queue =
     (case get_pipeline_states ops m of
        Inl err \<Rightarrow> (Inl err, m, task_queue)
      | Inr pipeline_states \<Rightarrow>
          if pipeline_states = [] then (Inr (), m, task_queue)
          else
            (case classify pipeline_states [] [] of
               Inl err \<Rightarrow> (Inl err, m, task_queue)
             | Inr (active_pipeline_states, stop_initiated_pipeline_states) \<Rightarrow>
                 (case (if stop_initiated_pipeline_states \<noteq> [] then
                          process_stop_initiated_pipelines m task_queue
                            stop_initiated_pipeline_states
                        else (m, task_queue)) of
                    (m1, task_queue1) \<Rightarrow>
                      if active_pipeline_states \<noteq> [] then
                        process_active_pipelines generate m1 task_queue1 active_pipeline_states
                      else (Inr (), m1, task_queue1))))"

text \<open>
  \<^verbatim>\<open>_pipeline_ops_lock\<close>: the decorated function runs with the re-entrant lock held one
  level deeper than its caller holds it; \<open>l\<close> is the caller's level. The lock is released
  when the function is left, so the level is given to the body and not returned by it.
\<close>

definition pipeline_ops_lock :: "(nat \<Rightarrow> 'r) \<Rightarrow> nat \<Rightarrow> 'r" where
  "pipeline_ops_lock fn l = fn (Suc l)"

definition generate_tasks ::
  "PipelineStateOps \<Rightarrow> (Generator \<Rightarrow> (Exn + Task list) \<times> Mlmd) \<Rightarrow> nat \<Rightarrow> Mlmd \<Rightarrow> TaskQueue \<Rightarrow>
   (Exn + unit) \<times> Mlmd \<times> TaskQueue" where
  "generate_tasks ops generate l m task_queue =
     to_status_not_ok_error ''generate_tasks''
       (pipeline_ops_lock (\<lambda>l'. generate_tasks_body ops generate m task_queue) l)"

subsection \<open>Waiting for an execution to become inactive\<close>

text \<open>
  \<^verbatim>\<open>_wait_for_inactivation\<close> reads the wall clock and polls a store that other threads
  write. Both are inputs here: \<open>clock\<close> lists the values that the successive calls of
  \<^verbatim>\<open>time.time()\<close> return, \<open>stores\<close> the store as each successive poll finds it. The
  times are real numbers (the rounding of floating point is not modelled). The result is
  the outcome and the trace of the calls of \<^verbatim>\<open>time.sleep\<close>: the seconds asked for, and
  the level \<open>l\<close> at which the calling thread holds the lock while it sleeps. It is
  \<open>None\<close> when the loop is still running at the end of the clock readings or store
  snapshots given.
\<close>

type_synonym Sleeps = "(real \<times> nat) list"

fun wait_loop ::
  "nat \<Rightarrow> Execution \<Rightarrow> real \<Rightarrow> real \<Rightarrow> real \<Rightarrow> real list \<Rightarrow> Mlmd list \<Rightarrow>
   ((Exn + unit) \<times> Sleeps) option" where
  "wait_loop l e timeout_secs polling_interval_secs end_time [] stores = None"
| "wait_loop l e timeout_secs polling_interval_secs end_time (now # clock) stores =
     (if end_time - now > 0 then
        (case stores of
           [] \<Rightarrow> None
         | m # stores' \<Rightarrow>
             (case get_executions_by_id m [exec_id e] of
                [] \<Rightarrow> Some (Inl IndexError, [])
              | updated # _ \<Rightarrow>
                  if \<not> is_execution_active updated then Some (Inr (), [])
                  else
                    (case clock of
                       [] \<Rightarrow> None
                     | now' # clock' \<Rightarrow>
                         map_option
                           (\<lambda>(r, sleeps).
                              (r, (max 0 (min polling_interval_secs (end_time - now')), l) # sleeps))
                           (wait_loop l e timeout_secs polling_interval_secs end_time
                              clock' stores'))))
      else
        Some (Inl (StatusNotOkError DEADLINE_EXCEEDED
                [Lit ''Timed out ('', Float timeout_secs,
                 Lit '' secs) waiting for execution inactivation.'']), []))"

definition wait_for_inactivation_body ::
  "nat \<Rightarrow> Execution \<Rightarrow> real \<Rightarrow> real list \<Rightarrow> Mlmd list \<Rightarrow> ((Exn + unit) \<times> Sleeps) option" where
  "wait_for_inactivation_body l e timeout_secs clock stores =
     (let polling_interval_secs = min 10 (timeout_secs / 4) in
      case clock of
        [] \<Rightarrow> None
      | start # clock' \<Rightarrow>
          wait_loop l e timeout_secs polling_interval_secs (start + timeout_secs) clock' stores)"

definition wait_for_inactivation ::
  "nat \<Rightarrow> Execution \<Rightarrow> real \<Rightarrow> real list \<Rightarrow> Mlmd list \<Rightarrow> ((Exn + unit) \<times> Sleeps) option" where
  "wait_for_inactivation l e timeout_secs clock stores =
     map_option (to_status_not_ok_error ''_wait_for_inactivation'')
       (wait_for_inactivation_body l e timeout_secs clock stores)"

subsection \<open>The lifecycle entry points\<close>

text \<open>
  Each entry point is its body inside \<^verbatim>\<open>_to_status_not_ok_error\<close>. The two that wait
  return, beside the outcome, the store as their locked part leaves it and the trace of
  sleeps, and \<open>None\<close> where the wait does.
\<close>

definition initiate_pipeline_start_body ::
  "PipelineStateOps \<Rightarrow> Mlmd \<Rightarrow> Pipeline \<Rightarrow> (Exn + PipelineState) \<times> Mlmd" where
  "initiate_pipeline_start_body ops m p =
     (case new ops m p of (acquired, m1) \<Rightarrow>
        (case with_pipeline_state ops m1 acquired (\<lambda>pipeline_state. (Inr (), pipeline_state)) of
           (Inl err, m2) \<Rightarrow> (Inl err, m2)
         | (Inr (u, pipeline_state), m2) \<Rightarrow> (Inr pipeline_state, m2)))"

definition initiate_pipeline_start ::
  "PipelineStateOps \<Rightarrow> nat \<Rightarrow> Mlmd \<Rightarrow> Pipeline \<Rightarrow> (Exn + PipelineState) \<times> Mlmd" where
  "initiate_pipeline_start ops l m p =
     to_status_not_ok_error ''initiate_pipeline_start''
       (pipeline_ops_lock (\<lambda>l'. initiate_pipeline_start_body ops m p) l)"

definition stop_pipeline_body ::
  "PipelineStateOps \<Rightarrow> nat \<Rightarrow> Mlmd \<Rightarrow> PipelineUid \<Rightarrow> real \<Rightarrow> real list \<Rightarrow> Mlmd list \<Rightarrow>
   ((Exn + unit) \<times> Mlmd \<times> Sleeps) option" where
  "stop_pipeline_body ops l m uid timeout_secs clock stores =
     (case pipeline_ops_lock
             (\<lambda>l'. with_pipeline_state ops m (load ops m uid)
                (\<lambda>pipeline_state.
                   case initiate_stop ops pipeline_state of
                     Inl err \<Rightarrow> (Inl err, pipeline_state)
                   | Inr pipeline_state' \<Rightarrow> (Inr (), pipeline_state'))) l of
        (Inl err, m') \<Rightarrow> Some (Inl err, m', [])
      | (Inr (u, pipeline_state), m') \<Rightarrow>
          map_option (\<lambda>(r, sleeps). (r, m', sleeps))
            (wait_for_inactivation l (execution pipeline_state) timeout_secs clock stores))"

definition stop_pipeline ::
  "PipelineStateOps \<Rightarrow> nat \<Rightarrow> Mlmd \<Rightarrow> PipelineUid \<Rightarrow> real \<Rightarrow> real list \<Rightarrow> Mlmd list \<Rightarrow>
   ((Exn + unit) \<times> Mlmd \<times> Sleeps) option" where
  "stop_pipeline ops l m uid timeout_secs clock stores =
     map_option (to_status_not_ok_error ''stop_pipeline'')
       (stop_pipeline_body ops l m uid timeout_secs clock stores)"

definition initiate_node_start_body ::
  "PipelineStateOps \<Rightarrow> Mlmd \<Rightarrow> NodeUid \<Rightarrow> (Exn + PipelineState) \<times> Mlmd" where
  "initiate_node_start_body ops m node_uid =
     (case with_pipeline_state ops m (load ops m (pipeline_uid node_uid))
             (\<lambda>pipeline_state.
                case initiate_node_start ops pipeline_state node_uid of
                  Inl err \<Rightarrow> (Inl err, pipeline_state)
                | Inr pipeline_state' \<Rightarrow> (Inr (), pipeline_state')) of
        (Inl err, m') \<Rightarrow> (Inl err, m')
      | (Inr (u, pipeline_state), m') \<Rightarrow> (Inr pipeline_state, m'))"

definition initiate_node_start ::
  "PipelineStateOps \<Rightarrow> nat \<Rightarrow> Mlmd \<Rightarrow> NodeUid \<Rightarrow> (Exn + PipelineState) \<times> Mlmd" where
  "initiate_node_start ops l m node_uid =
     to_status_not_ok_error ''initiate_node_start''
       (pipeline_ops_lock (\<lambda>l'. initiate_node_start_body ops m node_uid) l)"

text \<open>
  \<^verbatim>\<open>stop_node\<close>. \<open>stop_node_find\<close> is the body of the inner \<^verbatim>\<open>with\<close> block: it yields
  the node found. \<open>stop_node_locked\<close> is the block under the lock: it raises, or returns
  from \<^verbatim>\<open>stop_node\<close> (\<open>Inr None\<close>), or leaves the block with the one active execution to
  wait for.
\<close>

definition stop_node_find ::
  "PipelineStateOps \<Rightarrow> NodeUid \<Rightarrow> PipelineState \<Rightarrow> (Exn + PipelineNode) \<times> PipelineState" where
  "stop_node_find ops node_uid pipeline_state =
     (let all_nodes = get_all_pipeline_nodes (pipeline pipeline_state);
          filtered_nodes = filter (\<lambda>n. node_info_id n = node_id node_uid) all_nodes
      in if length filtered_nodes \<noteq> 1 then
           (Inl (StatusNotOkError INTERNAL
              [Lit ''`stop_node` operation failed, unable to find node to stop: '',
               UidOfNode node_uid]), pipeline_state)
         else
           (case initiate_node_stop ops pipeline_state node_uid of
              Inl err \<Rightarrow> (Inl err, pipeline_state)
            | Inr pipeline_state' \<Rightarrow> (Inr (filtered_nodes ! 0), pipeline_state')))"

definition stop_node_locked ::
  "PipelineStateOps \<Rightarrow> Mlmd \<Rightarrow> NodeUid \<Rightarrow> (Exn + Execution option) \<times> Mlmd" where
  "stop_node_locked ops m node_uid =
     (case with_pipeline_state ops m (load ops m (pipeline_uid node_uid))
             (stop_node_find ops node_uid) of
        (Inl err, m') \<Rightarrow> (Inl err, m')
      | (Inr (node, pipeline_state), m') \<Rightarrow>
          (let execs = get_executions m' node;
               active_executions = filter is_execution_active execs
           in if active_executions = [] then (Inr None, m')
              else if length active_executions > 1 then
                (Inl (StatusNotOkError INTERNAL
                   [Lit ''Unexpected multiple active executions for node: '',
                    UidOfNode node_uid]), m')
              else (Inr (Some (active_executions ! 0)), m')))"

definition stop_node_body ::
  "PipelineStateOps \<Rightarrow> nat \<Rightarrow> Mlmd \<Rightarrow> NodeUid \<Rightarrow> real \<Rightarrow> real list \<Rightarrow> Mlmd list \<Rightarrow>
   ((Exn + unit) \<times> Mlmd \<times> Sleeps) option" where
  "stop_node_body ops l m node_uid timeout_secs clock stores =
     (case pipeline_ops_lock (\<lambda>l'. stop_node_locked ops m node_uid) l of
        (Inl err, m') \<Rightarrow> Some (Inl err, m', [])
      | (Inr None, m') \<Rightarrow> Some (Inr (), m', [])
      | (Inr (Some e), m') \<Rightarrow>
          map_option (\<lambda>(r, sleeps). (r, m', sleeps))
            (wait_for_inactivation l e timeout_secs clock stores))"

definition stop_node ::
  "PipelineStateOps \<Rightarrow> nat \<Rightarrow> Mlmd \<Rightarrow> NodeUid \<Rightarrow> real \<Rightarrow> real list \<Rightarrow> Mlmd list \<Rightarrow>
   ((Exn + unit) \<times> Mlmd \<times> Sleeps) option" where
  "stop_node ops l m node_uid timeout_secs clock stores =
     map_option (to_status_not_ok_error ''stop_node'')
       (stop_node_body ops l m node_uid timeout_secs clock stores)"

section \<open>Vocabulary of the properties\<close>

text \<open>
  Definitions that the statements below use and the module does not contain. They follow
  the words of the specification, to be compared with what the code does.
\<close>

text \<open>
  The calls that the sweep over a stop-initiated pipeline makes, in the order of the nodes:
  for each node the result of \<^verbatim>\<open>_maybe_enqueue_cancellation_task\<close> (the flag and the
  queue it leaves), each call on the queue as the call before it left it.
\<close>

fun cancellation_calls ::
  "Mlmd \<Rightarrow> Pipeline \<Rightarrow> PipelineNode list \<Rightarrow> TaskQueue \<Rightarrow> (bool \<times> TaskQueue) list" where
  "cancellation_calls m p [] task_queue = []"
| "cancellation_calls m p (node # rest) task_queue =
     maybe_enqueue_cancellation_task m p node task_queue
       # cancellation_calls m p rest (snd (maybe_enqueue_cancellation_task m p node task_queue))"

text \<open>A pipeline state that is ``neither active nor stop-initiated''.\<close>

definition neither :: "PipelineState \<Rightarrow> bool" where
  "neither pipeline_state \<longleftrightarrow>
     \<not> is_stop_initiated pipeline_state \<and> \<not> is_execution_active (execution pipeline_state)"

text \<open>
  The outcome of a load that ends the scan: a failure that is not a
  \<^verbatim>\<open>StatusNotOkError\<close> with code \<open>NOT_FOUND\<close>. And the state a load yields, if any.
\<close>

definition aborts :: "Exn + PipelineState \<Rightarrow> bool" where
  "aborts r \<longleftrightarrow>
     (case r of
        Inl (StatusNotOkError c msg) \<Rightarrow> c \<noteq> NOT_FOUND
      | Inl (PyException cls msg) \<Rightarrow> True
      | Inr pipeline_state \<Rightarrow> False)"

definition loaded :: "Exn + PipelineState \<Rightarrow> PipelineState option" where
  "loaded r = (case r of Inl err \<Rightarrow> None | Inr pipeline_state \<Rightarrow> Some pipeline_state)"

text \<open>The store a generator was constructed on.\<close>

fun generator_mlmd :: "Generator \<Rightarrow> Mlmd" where
  "generator_mlmd (SyncPipelineTaskGenerator m p in_queue) = m"
| "generator_mlmd (AsyncPipelineTaskGenerator m p in_queue stop_ids) = m"

text \<open>
  What a poll of the store \<open>m\<close> for the execution \<open>e\<close> finds: no record, or a record
  that is active or not.
\<close>

definition polled :: "Mlmd \<Rightarrow> Execution \<Rightarrow> bool option" where
  "polled m e =
     (case get_executions_by_id m [exec_id e] of
        [] \<Rightarrow> None
      | updated # rest \<Rightarrow> Some (is_execution_active updated))"

text \<open>The error that \<^verbatim>\<open>_wait_for_inactivation\<close> raises at the deadline.\<close>

definition deadline_exceeded :: "real \<Rightarrow> Exn" where
  "deadline_exceeded timeout_secs =
     StatusNotOkError DEADLINE_EXCEEDED
       [Lit ''Timed out ('', Float timeout_secs, Lit '' secs) waiting for execution inactivation.'']"

text \<open>
  The error policy of section 7, for an operation named \<open>fn_name\<close> whose inner call ends
  as \<open>inner\<close> and that itself ends as \<open>outer\<close>: a structured error is raised again
  unchanged, any other exception becomes \<open>UNKNOWN\<close> with the message kept behind the
  operation's name, and a result is returned as it is.
\<close>

definition reraised :: "string \<Rightarrow> (Exn + 'a) \<times> 's \<Rightarrow> (Exn + 'a) \<times> 's \<Rightarrow> bool" where
  "reraised fn_name inner outer \<longleftrightarrow>
     (case inner of
        (Inl (StatusNotOkError c msg), s) \<Rightarrow> outer = (Inl (StatusNotOkError c msg), s)
      | (Inl (PyException cls msg), s) \<Rightarrow>
          outer = (Inl (StatusNotOkError UNKNOWN (Lit (''`'' @ fn_name @ ''` error: '') # msg)), s)
      | (Inr v, s) \<Rightarrow> outer = (Inr v, s))"

section \<open>Example inputs\<close>

text \<open>
  The pipeline of the specification's scenarios: \<open>pipeline1\<close>, asynchronous, with the one
  node \<open>Trainer\<close>; its context and its execution in state \<open>NEW\<close>; a store that holds
  them, without and with a running execution of the node; and a stale context.
\<close>

definition trainer :: PipelineNode where
  "trainer = \<lparr>node_info_id = ''Trainer'', runnable = True\<rparr>"

definition pipeline1 :: Pipeline where
  "pipeline1 = \<lparr>pipeline_info_id = ''pipeline1'', execution_mode = ASYNC, nodes = [trainer]\<rparr>"

definition trainer_uid :: NodeUid where
  "trainer_uid = NodeUid (PipelineUid ''pipeline1'') ''Trainer''"

definition context1 :: Context where
  "context1 = \<lparr>context_id = 1, context_name = ''pipeline1''\<rparr>"

definition stale_context :: Context where
  "stale_context = \<lparr>context_id = 2, context_name = ''stale''\<rparr>"

definition broken_context :: Context where
  "broken_context = \<lparr>context_id = 3, context_name = ''broken''\<rparr>"

definition execution1 :: Execution where
  "execution1 =
     \<lparr>exec_id = 1, last_known_state = NEW, stop_initiated = False, node_stop_initiated = []\<rparr>"

definition trainer_run :: Execution where
  "trainer_run =
     \<lparr>exec_id = 2, last_known_state = RUNNING, stop_initiated = False, node_stop_initiated = []\<rparr>"

definition state1 :: PipelineState where
  "state1 = \<lparr>pipeline = pipeline1, execution = execution1, mlmd_context = context1\<rparr>"

definition store1 :: Mlmd where
  "store1 =
     \<lparr>orchestrator_contexts = [stale_context, context1],
      executions = [1 \<mapsto> execution1],
      node_execution_ids = (\<lambda>node. [])\<rparr>"

definition store2 :: Mlmd where
  "store2 =
     \<lparr>orchestrator_contexts = [stale_context, context1],
      executions = [1 \<mapsto> execution1, 2 \<mapsto> trainer_run],
      node_execution_ids = (\<lambda>node. if node_info_id node = ''Trainer'' then [2] else [])\<rparr>"

text \<open>
  Operations of the pipeline state for the examples: a load yields \<open>pipeline1\<close> with the
  execution that the store holds under id 1 when that execution is active and fails with
  \<open>NOT_FOUND\<close> otherwise; the load of a context other than \<open>pipeline1\<close> and \<open>stale\<close>
  fails with \<open>INTERNAL\<close>; a commit writes the execution back.
\<close>

definition example_load :: "Mlmd \<Rightarrow> Exn + PipelineState" where
  "example_load m =
     (case executions m 1 of
        None \<Rightarrow> Inl (StatusNotOkError NOT_FOUND [Lit ''no active pipeline''])
      | Some e \<Rightarrow>
          if is_execution_active e then Inr (state1\<lparr>execution := e\<rparr>)
          else Inl (StatusNotOkError NOT_FOUND [Lit ''no active pipeline'']))"

definition example_ops :: PipelineStateOps where
  "example_ops =
     \<lparr>new = (\<lambda>m p. (Inl (StatusNotOkError ALREADY_EXISTS [Lit ''pipeline exists'']), m)),
      load = (\<lambda>m uid. if uid = PipelineUid ''pipeline1'' then example_load m
                       else Inl (StatusNotOkError NOT_FOUND [Lit ''no active pipeline''])),
      load_from_orchestrator_context =
        (\<lambda>m ctx. if context_name ctx = ''pipeline1'' then example_load m
                  else if context_name ctx = ''stale'' then
                    Inl (StatusNotOkError NOT_FOUND [Lit ''no active pipeline''])
                  else Inl (StatusNotOkError INTERNAL [Lit ''store failure''])),
      initiate_stop =
        (\<lambda>ps. Inr (ps\<lparr>execution := (execution ps)\<lparr>stop_initiated := True\<rparr>\<rparr>)),
      initiate_node_start =
        (\<lambda>ps uid. Inr (ps\<lparr>execution := (execution ps)
           \<lparr>node_stop_initiated := removeAll uid (node_stop_initiated (execution ps))\<rparr>\<rparr>)),
      initiate_node_stop =
        (\<lambda>ps uid. Inr (ps\<lparr>execution := (execution ps)
           \<lparr>node_stop_initiated := uid # node_stop_initiated (execution ps)\<rparr>\<rparr>)),
      commit = (\<lambda>m ps. (Inr ps, put_executions m [execution ps]))\<rparr>"

text \<open>
  The store after the run of \<open>Trainer\<close> has ended, and a store with two running
  executions of the node.
\<close>

definition finished_run :: Execution where
  "finished_run = trainer_run\<lparr>last_known_state := COMPLETE\<rparr>"

definition store3 :: Mlmd where
  "store3 = put_executions store2 [finished_run]"

definition second_run :: Execution where
  "second_run = trainer_run\<lparr>exec_id := 3\<rparr>"

definition store4 :: Mlmd where
  "store4 =
     \<lparr>orchestrator_contexts = [stale_context, context1],
      executions = [1 \<mapsto> execution1, 2 \<mapsto> trainer_run, 3 \<mapsto> second_run],
      node_execution_ids = (\<lambda>node. if node_info_id node = ''Trainer'' then [2, 3] else [])\<rparr>"

text \<open>A generator run that yields no task and leaves the store as it is.\<close>

definition no_tasks :: "Generator \<Rightarrow> (Exn + Task list) \<times> Mlmd" where
  "no_tasks generator = (Inr [], generator_mlmd generator)"

section \<open>Cancellation of a node\<close>

lemma put_executions_single:
  "executions (put_executions m [e]) = (executions m)(exec_id e \<mapsto> e)"
  "orchestrator_contexts (put_executions m [e]) = orchestrator_contexts m"
  "node_execution_ids (put_executions m [e]) = node_execution_ids m"
  by (simp_all add: put_executions_def)

text \<open>
  C2. \<^verbatim>\<open>_maybe_enqueue_cancellation_task\<close> returns \<open>False\<close> and leaves the queue as it is
  when the node is not feasible. Otherwise, when the queue contains the id of the node's
  \<open>ExecNodeTask\<close>, it appends one \<open>CancelNodeTask\<close> for the node and returns \<open>True\<close>.
  Otherwise, when exactly one of the node's executions in the store is active, it appends
  one \<open>ExecNodeTask\<close> for the node with \<open>is_cancelled\<close> set and returns \<open>True\<close>. In every
  other case it returns \<open>False\<close> and leaves the queue as it is.
\<close>

theorem maybe_enqueue_cancellation_task_cases:
  "maybe_enqueue_cancellation_task m p node task_queue =
     (if \<not> is_feasible_node node then (False, task_queue)
      else if contains_task_id task_queue (exec_node_task_id_from_pipeline_node p node) then
        (True, task_queue @ [CancelNodeTask (NodeUid_from_pipeline_node p node)])
      else if length (filter is_execution_active (get_executions m node)) = 1 then
        (True, task_queue @ [ExecNodeTask (NodeUid_from_pipeline_node p node) True])
      else (False, task_queue))"
  by (simp add: maybe_enqueue_cancellation_task_def generate_task_from_active_execution_def
      enqueue_def Let_def split: list.splits)

text \<open>
  The four cases on the example: a node that is not feasible; the node's task in the
  queue; an empty queue and a running execution of the node in the store (the restart of
  scenario 6); an empty queue and no execution.
\<close>

theorem maybe_enqueue_cancellation_task_cases_witness:
  "maybe_enqueue_cancellation_task store2 pipeline1 (trainer\<lparr>runnable := False\<rparr>) [] = (False, [])
   \<and> maybe_enqueue_cancellation_task store2 pipeline1 trainer [ExecNodeTask trainer_uid False] =
       (True, [ExecNodeTask trainer_uid False, CancelNodeTask trainer_uid])
   \<and> maybe_enqueue_cancellation_task store2 pipeline1 trainer [] =
       (True, [ExecNodeTask trainer_uid True])
   \<and> maybe_enqueue_cancellation_task store1 pipeline1 trainer [] = (False, [])"
proof (intro conjI)
  show "maybe_enqueue_cancellation_task store2 pipeline1 (trainer\<lparr>runnable := False\<rparr>) [] = (False, [])"
    using maybe_enqueue_cancellation_task_cases [of store2 pipeline1 "trainer\<lparr>runnable := False\<rparr>" "[]"]
    by (simp add: is_feasible_node_def trainer_def)
  show "maybe_enqueue_cancellation_task store2 pipeline1 trainer [ExecNodeTask trainer_uid False] =
       (True, [ExecNodeTask trainer_uid False, CancelNodeTask trainer_uid])"
    using maybe_enqueue_cancellation_task_cases
      [of store2 pipeline1 trainer "[ExecNodeTask trainer_uid False]"]
    by (simp add: is_feasible_node_def trainer_def contains_task_id_def pipeline1_def
        exec_node_task_id_from_pipeline_node_def NodeUid_from_pipeline_node_def
        PipelineUid_from_pipeline_def trainer_uid_def)
  show "maybe_enqueue_cancellation_task store2 pipeline1 trainer [] =
       (True, [ExecNodeTask trainer_uid True])"
    using maybe_enqueue_cancellation_task_cases [of store2 pipeline1 trainer "[]"]
    by (simp add: is_feasible_node_def trainer_def contains_task_id_def pipeline1_def
        NodeUid_from_pipeline_node_def PipelineUid_from_pipeline_def trainer_uid_def
        get_executions_def get_executions_by_id_def List.map_filter_simps store2_def
        is_execution_active_def trainer_run_def)
  show "maybe_enqueue_cancellation_task store1 pipeline1 trainer [] = (False, [])"
    using maybe_enqueue_cancellation_task_cases [of store1 pipeline1 trainer "[]"]
    by (simp add: is_feasible_node_def trainer_def contains_task_id_def
        get_executions_def get_executions_by_id_def List.map_filter_simps store1_def)
qed

section \<open>The sweep over the stop-initiated pipelines\<close>

lemma length_cancellation_calls: "length (cancellation_calls m p ns q) = length ns"
  by (induction ns arbitrary: q) simp_all

lemma cancellation_calls_nth:
  "i < length ns \<Longrightarrow>
     cancellation_calls m p ns q ! i =
       maybe_enqueue_cancellation_task m p (ns ! i)
         (last (q # map snd (take i (cancellation_calls m p ns q))))"
proof (induction ns arbitrary: q i)
  case Nil
  then show ?case by simp
next
  case (Cons n ns)
  show ?case
  proof (cases i)
    case 0
    then show ?thesis by simp
  next
    case (Suc j)
    with Cons.prems have "j < length ns" by simp
    from Cons.IH [OF this] Suc show ?thesis by simp
  qed
qed

lemma cancel_all_nodes_calls:
  "cancel_all_nodes m p ns q has =
     (has \<or> True \<in> set (map fst (cancellation_calls m p ns q)),
      last (q # map snd (cancellation_calls m p ns q)))"
proof (induction ns arbitrary: q has)
  case Nil
  show ?case by simp
next
  case (Cons n ns)
  obtain b q' where r: "maybe_enqueue_cancellation_task m p n q = (b, q')"
    by (cases "maybe_enqueue_cancellation_task m p n q")
  show ?case
    using Cons.IH [of q' "if b then True else has"] r by (cases b) auto
qed

lemma process_stop_append:
  "process_stop_initiated_pipelines m q (xs @ ys) =
     (case process_stop_initiated_pipelines m q xs of
        (m0, q0) \<Rightarrow> process_stop_initiated_pipelines m0 q0 ys)"
proof (induction xs arbitrary: m q)
  case Nil
  show ?case by simp
next
  case (Cons x xs)
  show ?case by (simp add: Cons.IH split: prod.splits)
qed

text \<open>
  C1. Let the sweep have reached the stop-initiated pipeline \<open>ps\<close> with the store \<open>m0\<close>
  and the queue \<open>q0\<close>. It calls \<^verbatim>\<open>_maybe_enqueue_cancellation_task\<close> once for every node
  of the pipeline's IR, in order, each call on the queue as the call before left it. If no
  call returned \<open>True\<close>, it writes the pipeline's execution with \<open>last_known_state\<close>
  \<open>CANCELED\<close> to the store, where a read of the execution's id then finds it; if some call
  returned \<open>True\<close>, it goes on with the store \<open>m0\<close> as it was.
\<close>

theorem process_stop_initiated_pipeline_sweep:
  assumes "process_stop_initiated_pipelines m q before = (m0, q0)"
  shows
    "let p = pipeline ps;
         calls = cancellation_calls m0 p (get_all_pipeline_nodes p) q0;
         canceled = (execution ps)\<lparr>last_known_state := CANCELED\<rparr>
     in length calls = length (nodes p)
        \<and> (\<forall>i<length (nodes p).
              calls ! i =
                maybe_enqueue_cancellation_task m0 p (nodes p ! i)
                  (last (q0 # map snd (take i calls))))
        \<and> process_stop_initiated_pipelines m q (before @ ps # after) =
            process_stop_initiated_pipelines
              (if True \<in> set (map fst calls) then m0 else put_executions m0 [canceled])
              (last (q0 # map snd calls)) after
        \<and> executions (put_executions m0 [canceled]) (exec_id (execution ps)) = Some canceled"
proof -
  have "process_stop_initiated_pipelines m q (before @ ps # after) =
      process_stop_initiated_pipelines
        (if True \<in> set (map fst
              (cancellation_calls m0 (pipeline ps) (get_all_pipeline_nodes (pipeline ps)) q0))
         then m0
         else put_executions m0 [(execution ps)\<lparr>last_known_state := CANCELED\<rparr>])
        (last (q0 # map snd
              (cancellation_calls m0 (pipeline ps) (get_all_pipeline_nodes (pipeline ps)) q0)))
        after"
    using assms by (simp add: process_stop_append cancel_all_nodes_calls)
  then show ?thesis
    by (simp add: Let_def length_cancellation_calls cancellation_calls_nth
        get_all_pipeline_nodes_def put_executions_single)
qed

text \<open>
  Scenario 5 of the specification: \<open>pipeline1\<close> is stop-initiated and the store holds no
  execution of \<open>Trainer\<close>. The sweep enqueues nothing and the execution becomes
  \<open>CANCELED\<close>. With a running execution of \<open>Trainer\<close> in the store, the sweep enqueues the
  cancelling \<open>ExecNodeTask\<close> and leaves the store.
\<close>

theorem process_stop_initiated_pipeline_sweep_witness:
  "process_stop_initiated_pipelines store1 [] [] = (store1, [])
   \<and> process_stop_initiated_pipelines store1 []
        [state1\<lparr>execution := execution1\<lparr>stop_initiated := True\<rparr>\<rparr>] =
       (put_executions store1 [execution1\<lparr>stop_initiated := True, last_known_state := CANCELED\<rparr>], [])
   \<and> map_option last_known_state
        (executions
           (put_executions store1
              [execution1\<lparr>stop_initiated := True, last_known_state := CANCELED\<rparr>]) 1) =
       Some CANCELED
   \<and> process_stop_initiated_pipelines store2 []
        [state1\<lparr>execution := execution1\<lparr>stop_initiated := True\<rparr>\<rparr>] =
       (store2, [ExecNodeTask trainer_uid True])"
proof -
  have s1: "process_stop_initiated_pipelines store1 [] [] = (store1, [])" by simp
  have s2: "process_stop_initiated_pipelines store2 [] [] = (store2, [])" by simp
  have c1: "maybe_enqueue_cancellation_task store1 pipeline1 trainer [] = (False, [])"
    by (simp add: maybe_enqueue_cancellation_task_def is_feasible_node_def trainer_def
        contains_task_id_def get_executions_def get_executions_by_id_def List.map_filter_simps
        store1_def generate_task_from_active_execution_def)
  have c2: "maybe_enqueue_cancellation_task store2 pipeline1 trainer [] =
      (True, [ExecNodeTask trainer_uid True])"
    by (simp add: maybe_enqueue_cancellation_task_def is_feasible_node_def trainer_def
        contains_task_id_def get_executions_def get_executions_by_id_def List.map_filter_simps
        store2_def generate_task_from_active_execution_def is_execution_active_def trainer_run_def
        enqueue_def NodeUid_from_pipeline_node_def PipelineUid_from_pipeline_def pipeline1_def
        trainer_uid_def)
  have n: "get_all_pipeline_nodes pipeline1 = [trainer]" "nodes pipeline1 = [trainer]"
    by (simp_all add: get_all_pipeline_nodes_def pipeline1_def)
  have e: "exec_id execution1 = 1" by (simp add: execution1_def)
  show ?thesis
    using process_stop_initiated_pipeline_sweep
      [OF s1, of "state1\<lparr>execution := execution1\<lparr>stop_initiated := True\<rparr>\<rparr>" "[]"]
      process_stop_initiated_pipeline_sweep
      [OF s2, of "state1\<lparr>execution := execution1\<lparr>stop_initiated := True\<rparr>\<rparr>" "[]"]
    by (simp add: Let_def state1_def n c1 c2 e)
qed


section \<open>The scan and the classification\<close>

lemma get_pipeline_states_loop_eq:
  "get_pipeline_states_loop ld cs result =
     (case find (\<lambda>c. aborts (ld c)) cs of
        Some c \<Rightarrow> (case ld c of Inl err \<Rightarrow> Inl err | Inr ps \<Rightarrow> Inr [])
      | None \<Rightarrow> Inr (result @ List.map_filter (\<lambda>c. loaded (ld c)) cs))"
proof (induction cs arbitrary: result)
  case Nil
  show ?case by (simp add: List.map_filter_simps)
next
  case (Cons c cs)
  show ?case
  proof (cases "ld c")
    case (Inr ps)
    then show ?thesis
      by (simp add: Cons.IH aborts_def loaded_def List.map_filter_simps split: option.splits)
  next
    case (Inl err)
    then show ?thesis
      by (cases err)
        (simp_all add: Cons.IH aborts_def loaded_def List.map_filter_simps split: option.splits)
  qed
qed

lemma get_pipeline_states_loop_skip:
  assumes "ld ctx = Inl (StatusNotOkError NOT_FOUND msg)"
  shows "get_pipeline_states_loop ld (before @ ctx # after) result =
         get_pipeline_states_loop ld (before @ after) result"
proof (induction before arbitrary: result)
  case Nil
  from assms show ?case by simp
next
  case (Cons c cs)
  show ?case
  proof (cases "ld c")
    case (Inr ps)
    then show ?thesis by (simp add: Cons.IH)
  next
    case (Inl err)
    then show ?thesis by (cases err) (simp_all add: Cons.IH)
  qed
qed

lemma classify_eq:
  "classify pss act stp =
     (case find neither pss of
        Some bad \<Rightarrow>
          Inl (StatusNotOkError INTERNAL
            [Lit ''Found pipeline (uid: '', UidOfPipeline (state_pipeline_uid bad),
             Lit '') which is neither active nor stop-initiated.''])
      | None \<Rightarrow>
          Inr (act @ filter (\<lambda>ps. \<not> is_stop_initiated ps \<and> is_execution_active (execution ps)) pss,
               stp @ filter is_stop_initiated pss))"
  by (induction pss arbitrary: act stp) (auto simp: neither_def split: option.splits)

lemma generate_tasks_body_classified:
  assumes "get_pipeline_states ops m = Inr pss" and "find neither pss = None"
  shows "generate_tasks_body ops generate m q =
    (case process_stop_initiated_pipelines m q (filter is_stop_initiated pss) of
       (m1, q1) \<Rightarrow>
         process_active_pipelines generate m1 q1
           (filter (\<lambda>ps. \<not> is_stop_initiated ps \<and> is_execution_active (execution ps)) pss))"
proof (cases "pss = []")
  case True
  with assms show ?thesis by (simp add: generate_tasks_body_def)
next
  case False
  obtain m1 q1 where
    s: "process_stop_initiated_pipelines m q (filter is_stop_initiated pss) = (m1, q1)"
    by (cases "process_stop_initiated_pipelines m q (filter is_stop_initiated pss)")
  show ?thesis
    using assms False s
    by (cases "filter is_stop_initiated pss = []";
        cases "filter (\<lambda>ps. \<not> is_stop_initiated ps \<and> is_execution_active (execution ps)) pss = []")
       (simp_all add: generate_tasks_body_def classify_eq)
qed

lemma generate_tasks_body_invalid:
  assumes "get_pipeline_states ops m = Inr pss" and "find neither pss = Some bad"
  shows "generate_tasks_body ops generate m q =
    (Inl (StatusNotOkError INTERNAL
            [Lit ''Found pipeline (uid: '', UidOfPipeline (state_pipeline_uid bad),
             Lit '') which is neither active nor stop-initiated.'']), m, q)"
proof -
  from assms(2) have "pss \<noteq> []" by auto
  with assms show ?thesis by (simp add: generate_tasks_body_def classify_eq)
qed

lemma example_scan:
  "get_pipeline_states example_ops store1 = Inr [state1]"
  by (simp add: get_pipeline_states_def get_orchestrator_contexts_def store1_def example_ops_def
      stale_context_def context1_def example_load_def is_execution_active_def execution1_def
      state1_def)

text \<open>
  C3. The classification puts every pipeline state into exactly one class, in this order:
  stop-initiated when \<^verbatim>\<open>is_stop_initiated()\<close> holds, whatever the execution's state;
  else active when the execution's \<open>last_known_state\<close> is \<open>NEW\<close> or \<open>RUNNING\<close>; else the
  tick fails with \<open>INTERNAL\<close>, for the first such state, and has processed no pipeline:
  the store and the queue are as they were. When no state is of the third kind, the tick
  processes the stop-initiated states and then the active ones, and no other.
\<close>

theorem pipeline_state_classes:
  "classify pss [] [] =
     (case find neither pss of
        Some bad \<Rightarrow>
          Inl (StatusNotOkError INTERNAL
            [Lit ''Found pipeline (uid: '', UidOfPipeline (state_pipeline_uid bad),
             Lit '') which is neither active nor stop-initiated.''])
      | None \<Rightarrow>
          Inr (filter (\<lambda>ps. \<not> is_stop_initiated ps \<and>
                        (last_known_state (execution ps) = NEW \<or>
                         last_known_state (execution ps) = RUNNING)) pss,
               filter is_stop_initiated pss))
   \<and> (get_pipeline_states ops m = Inr pss \<longrightarrow> find neither pss = Some bad \<longrightarrow>
        generate_tasks ops generate l m q =
          (Inl (StatusNotOkError INTERNAL
             [Lit ''Found pipeline (uid: '', UidOfPipeline (state_pipeline_uid bad),
              Lit '') which is neither active nor stop-initiated.'']), m, q))
   \<and> (get_pipeline_states ops m = Inr pss \<longrightarrow> find neither pss = None \<longrightarrow>
        generate_tasks_body ops generate m q =
          (case process_stop_initiated_pipelines m q (filter is_stop_initiated pss) of
             (m1, q1) \<Rightarrow>
               process_active_pipelines generate m1 q1
                 (filter (\<lambda>ps. \<not> is_stop_initiated ps \<and>
                            (last_known_state (execution ps) = NEW \<or>
                             last_known_state (execution ps) = RUNNING)) pss)))"
proof (intro conjI impI)
  show "classify pss [] [] =
     (case find neither pss of
        Some bad \<Rightarrow>
          Inl (StatusNotOkError INTERNAL
            [Lit ''Found pipeline (uid: '', UidOfPipeline (state_pipeline_uid bad),
             Lit '') which is neither active nor stop-initiated.''])
      | None \<Rightarrow>
          Inr (filter (\<lambda>ps. \<not> is_stop_initiated ps \<and>
                        (last_known_state (execution ps) = NEW \<or>
                         last_known_state (execution ps) = RUNNING)) pss,
               filter is_stop_initiated pss))"
    by (simp add: classify_eq is_execution_active_def split: option.splits)
next
  assume "get_pipeline_states ops m = Inr pss" and "find neither pss = Some bad"
  then show "generate_tasks ops generate l m q =
          (Inl (StatusNotOkError INTERNAL
             [Lit ''Found pipeline (uid: '', UidOfPipeline (state_pipeline_uid bad),
              Lit '') which is neither active nor stop-initiated.'']), m, q)"
    by (simp add: generate_tasks_def pipeline_ops_lock_def generate_tasks_body_invalid)
next
  assume "get_pipeline_states ops m = Inr pss" and "find neither pss = None"
  then show "generate_tasks_body ops generate m q =
          (case process_stop_initiated_pipelines m q (filter is_stop_initiated pss) of
             (m1, q1) \<Rightarrow>
               process_active_pipelines generate m1 q1
                 (filter (\<lambda>ps. \<not> is_stop_initiated ps \<and>
                            (last_known_state (execution ps) = NEW \<or>
                             last_known_state (execution ps) = RUNNING)) pss))"
    using generate_tasks_body_classified [of ops m pss generate q]
    by (simp add: is_execution_active_def)
qed

text \<open>
  On the example: a stop-initiated state whose execution is \<open>COMPLETE\<close> is classified as
  stop-initiated and the state in \<open>NEW\<close> as active; a state in \<open>COMPLETE\<close> that is not
  stop-initiated makes the tick fail with \<open>INTERNAL\<close> and leaves the store and the queue.
\<close>

theorem pipeline_state_classes_witness:
  "classify [state1\<lparr>execution := execution1\<lparr>last_known_state := COMPLETE, stop_initiated := True\<rparr>\<rparr>,
             state1] [] [] =
     Inr ([state1],
          [state1\<lparr>execution := execution1\<lparr>last_known_state := COMPLETE, stop_initiated := True\<rparr>\<rparr>])
   \<and> get_pipeline_states
        (example_ops\<lparr>load_from_orchestrator_context :=
           (\<lambda>m ctx. Inr (state1\<lparr>execution := execution1\<lparr>last_known_state := COMPLETE\<rparr>\<rparr>))\<rparr>)
        (store1\<lparr>orchestrator_contexts := [context1]\<rparr>) =
       Inr [state1\<lparr>execution := execution1\<lparr>last_known_state := COMPLETE\<rparr>\<rparr>]
   \<and> generate_tasks
        (example_ops\<lparr>load_from_orchestrator_context :=
           (\<lambda>m ctx. Inr (state1\<lparr>execution := execution1\<lparr>last_known_state := COMPLETE\<rparr>\<rparr>))\<rparr>)
        no_tasks 0 (store1\<lparr>orchestrator_contexts := [context1]\<rparr>) [] =
       (Inl (StatusNotOkError INTERNAL
          [Lit ''Found pipeline (uid: '', UidOfPipeline (PipelineUid ''pipeline1''),
           Lit '') which is neither active nor stop-initiated.'']),
        store1\<lparr>orchestrator_contexts := [context1]\<rparr>, [])
   \<and> get_pipeline_states example_ops store1 = Inr [state1]
   \<and> generate_tasks_body example_ops no_tasks store1 [] =
       process_active_pipelines no_tasks store1 [] [state1]"
proof -
  let ?stopped = "state1\<lparr>execution := execution1\<lparr>last_known_state := COMPLETE, stop_initiated := True\<rparr>\<rparr>"
  let ?done = "state1\<lparr>execution := execution1\<lparr>last_known_state := COMPLETE\<rparr>\<rparr>"
  let ?ops = "example_ops\<lparr>load_from_orchestrator_context := (\<lambda>m ctx. Inr ?done)\<rparr>"
  let ?m = "store1\<lparr>orchestrator_contexts := [context1]\<rparr>"
  have n1: "neither ?done" "\<not> neither state1" "\<not> neither ?stopped"
    by (simp_all add: neither_def is_stop_initiated_def is_execution_active_def state1_def
        execution1_def)
  have f: "\<not> is_stop_initiated state1" "is_stop_initiated ?stopped"
    "last_known_state (execution state1) = NEW"
    by (simp_all add: is_stop_initiated_def state1_def execution1_def)
  have scan: "get_pipeline_states ?ops ?m = Inr [?done]"
    by (simp add: get_pipeline_states_def get_orchestrator_contexts_def)
  have uid: "state_pipeline_uid ?done = PipelineUid ''pipeline1''"
    by (simp add: state_pipeline_uid_def PipelineUid_from_pipeline_def state1_def pipeline1_def)
  have a: "classify [?stopped, state1] [] [] = Inr ([state1], [?stopped])"
    using pipeline_state_classes [of "[?stopped, state1]"] n1 f by simp
  have b: "generate_tasks ?ops no_tasks 0 ?m [] =
       (Inl (StatusNotOkError INTERNAL
          [Lit ''Found pipeline (uid: '', UidOfPipeline (PipelineUid ''pipeline1''),
           Lit '') which is neither active nor stop-initiated.'']), ?m, [])"
    using pipeline_state_classes [of "[?done]" ?ops ?m ?done no_tasks 0 "[]"] scan n1 uid by simp
  have c: "generate_tasks_body example_ops no_tasks store1 [] =
       process_active_pipelines no_tasks store1 [] [state1]"
    using pipeline_state_classes [of "[state1]" example_ops store1 undefined no_tasks 0 "[]"]
      example_scan n1 f by simp
  from a scan b example_scan c show ?thesis by simp
qed

text \<open>
  C7. In the scan, a context whose load fails with \<open>NOT_FOUND\<close> is skipped: the scan of
  the contexts with it equals the scan without it. When no load fails otherwise, the scan
  yields the states loaded, in the order of the contexts. The first context whose load
  fails in another way (a structured error with another code, or an exception that is not
  a \<^verbatim>\<open>StatusNotOkError\<close>) ends the scan and the tick with that error: the store and the
  queue are as they were, and a structured error reaches the caller of
  \<^verbatim>\<open>generate_tasks\<close> unchanged.
\<close>

theorem scan_of_contexts:
  "(ld ctx = Inl (StatusNotOkError NOT_FOUND msg) \<longrightarrow>
      get_pipeline_states_loop ld (before @ ctx # after) result =
      get_pipeline_states_loop ld (before @ after) result)
   \<and> (find (\<lambda>c. aborts (load_from_orchestrator_context ops m c)) (get_orchestrator_contexts m) =
         None \<longrightarrow>
       get_pipeline_states ops m =
         Inr (List.map_filter (\<lambda>c. loaded (load_from_orchestrator_context ops m c))
                (get_orchestrator_contexts m)))
   \<and> (find (\<lambda>c. aborts (load_from_orchestrator_context ops m c)) (get_orchestrator_contexts m) =
         Some bad \<longrightarrow>
       load_from_orchestrator_context ops m bad = Inl err \<longrightarrow>
       get_pipeline_states ops m = Inl err
       \<and> generate_tasks_body ops generate m q = (Inl err, m, q)
       \<and> (\<forall>c detail. err = StatusNotOkError c detail \<longrightarrow>
            generate_tasks ops generate l m q = (Inl (StatusNotOkError c detail), m, q)))"
proof (intro conjI impI allI)
  assume "ld ctx = Inl (StatusNotOkError NOT_FOUND msg)"
  then show "get_pipeline_states_loop ld (before @ ctx # after) result =
      get_pipeline_states_loop ld (before @ after) result"
    by (rule get_pipeline_states_loop_skip)
next
  assume "find (\<lambda>c. aborts (load_from_orchestrator_context ops m c)) (get_orchestrator_contexts m) =
         None"
  then show "get_pipeline_states ops m =
         Inr (List.map_filter (\<lambda>c. loaded (load_from_orchestrator_context ops m c))
                (get_orchestrator_contexts m))"
    by (simp add: get_pipeline_states_def get_pipeline_states_loop_eq)
next
  assume f: "find (\<lambda>c. aborts (load_from_orchestrator_context ops m c))
      (get_orchestrator_contexts m) = Some bad"
    and e: "load_from_orchestrator_context ops m bad = Inl err"
  then show scan: "get_pipeline_states ops m = Inl err"
    by (simp add: get_pipeline_states_def get_pipeline_states_loop_eq)
  then show body: "generate_tasks_body ops generate m q = (Inl err, m, q)"
    by (simp add: generate_tasks_body_def)
  fix c detail
  assume "err = StatusNotOkError c detail"
  with body show "generate_tasks ops generate l m q = (Inl (StatusNotOkError c detail), m, q)"
    by (simp add: generate_tasks_def pipeline_ops_lock_def)
qed

text \<open>
  On the example: the stale context is skipped and \<open>pipeline1\<close> is loaded; with a context
  in between whose load fails with \<open>INTERNAL\<close>, the tick fails with that error and leaves
  the store and the queue.
\<close>

theorem scan_of_contexts_witness:
  "load_from_orchestrator_context example_ops store1 stale_context =
     Inl (StatusNotOkError NOT_FOUND [Lit ''no active pipeline''])
   \<and> get_pipeline_states_loop (load_from_orchestrator_context example_ops store1)
        [stale_context, context1] [] =
       get_pipeline_states_loop (load_from_orchestrator_context example_ops store1) [context1] []
   \<and> get_pipeline_states example_ops store1 = Inr [state1]
   \<and> load_from_orchestrator_context example_ops
        (store1\<lparr>orchestrator_contexts := [stale_context, broken_context, context1]\<rparr>)
        broken_context =
       Inl (StatusNotOkError INTERNAL [Lit ''store failure''])
   \<and> generate_tasks example_ops no_tasks 0
        (store1\<lparr>orchestrator_contexts := [stale_context, broken_context, context1]\<rparr>) [] =
       (Inl (StatusNotOkError INTERNAL [Lit ''store failure'']),
        store1\<lparr>orchestrator_contexts := [stale_context, broken_context, context1]\<rparr>, [])"
proof -
  let ?m = "store1\<lparr>orchestrator_contexts := [stale_context, broken_context, context1]\<rparr>"
  have l1: "load_from_orchestrator_context example_ops store1 stale_context =
     Inl (StatusNotOkError NOT_FOUND [Lit ''no active pipeline''])"
    by (simp add: example_ops_def stale_context_def)
  have l2: "load_from_orchestrator_context example_ops store1 context1 = Inr state1"
    by (simp add: example_ops_def context1_def example_load_def store1_def
        is_execution_active_def execution1_def state1_def)
  have l3: "load_from_orchestrator_context example_ops ?m stale_context =
     Inl (StatusNotOkError NOT_FOUND [Lit ''no active pipeline''])"
    by (simp add: example_ops_def stale_context_def)
  have l4: "load_from_orchestrator_context example_ops ?m broken_context =
     Inl (StatusNotOkError INTERNAL [Lit ''store failure''])"
    by (simp add: example_ops_def broken_context_def)
  have c1: "get_orchestrator_contexts store1 = [stale_context, context1]"
    by (simp add: get_orchestrator_contexts_def store1_def)
  have c2: "get_orchestrator_contexts ?m = [stale_context, broken_context, context1]"
    by (simp add: get_orchestrator_contexts_def)
  have a: "get_pipeline_states_loop (load_from_orchestrator_context example_ops store1)
        [stale_context, context1] [] =
       get_pipeline_states_loop (load_from_orchestrator_context example_ops store1) [context1] []"
    using scan_of_contexts
      [of "load_from_orchestrator_context example_ops store1" stale_context
          "[Lit ''no active pipeline'']" "[]" "[context1]" "[]"] l1
    by simp
  have b: "get_pipeline_states example_ops store1 = Inr [state1]"
    using scan_of_contexts [of undefined undefined undefined undefined undefined undefined
        example_ops store1]
    by (simp add: c1 l1 l2 aborts_def loaded_def List.map_filter_simps)
  have c: "generate_tasks example_ops no_tasks 0 ?m [] =
       (Inl (StatusNotOkError INTERNAL [Lit ''store failure'']), ?m, [])"
    using scan_of_contexts [of undefined undefined undefined undefined undefined undefined
        example_ops ?m broken_context "StatusNotOkError INTERNAL [Lit ''store failure'']"
        no_tasks "[]" 0]
    by (simp add: c2 l3 l4 aborts_def)
  from l1 a b l4 c show ?thesis by simp
qed


section \<open>The active pipelines\<close>


lemma process_active_pipelines_step:
  assumes "last_known_state (execution ps) = NEW \<or> last_known_state (execution ps) = RUNNING"
  shows "process_active_pipelines generate m q (ps # rest) =
     (let m1 = (if last_known_state (execution ps) = NEW then
                  put_executions m [(execution ps)\<lparr>last_known_state := RUNNING\<rparr>]
                else m);
          q1 = foldl (\<lambda>q node. snd (maybe_enqueue_cancellation_task m1 (pipeline ps) node q))
                 q (get_stop_initiated_nodes ps)
      in (case init_task_generator m1 q1 (pipeline ps) (get_stop_initiated_nodes ps) of
            Inl err \<Rightarrow> (Inl err, m1, q1)
          | Inr generator \<Rightarrow>
              (case generate generator of
                 (Inl err, m2) \<Rightarrow> (Inl err, m2, q1)
               | (Inr tasks, m2) \<Rightarrow>
                   process_active_pipelines generate m2 (foldl enqueue q1 tasks) rest)))"
  using assms by (elim disjE) (simp_all add: Let_def)








lemma get_pipeline_states_loop_error:
  "get_pipeline_states_loop ld cs result = Inl err \<Longrightarrow> \<exists>c. ld c = Inl err"
proof (induction cs arbitrary: result)
  case Nil
  then show ?case by simp
next
  case (Cons c cs)
  show ?case
  proof (cases "ld c")
    case (Inr ps)
    with Cons show ?thesis by simp
  next
    case (Inl e)
    with Cons show ?thesis by (cases e) (auto split: if_splits)
  qed
qed

lemma process_active_no_assertion:
  assumes gen: "\<And>g. fst (generate g) \<noteq> Inl AssertionError"
    and act: "\<And>ps. ps \<in> set pss \<Longrightarrow> is_execution_active (execution ps)"
  shows "fst (process_active_pipelines generate m q pss) \<noteq> Inl AssertionError"
  using act
proof (induction pss arbitrary: m q)
  case Nil
  show ?case by simp
next
  case (Cons ps pss)
  have a: "last_known_state (execution ps) = NEW \<or> last_known_state (execution ps) = RUNNING"
    using Cons.prems [of ps] by (simp add: is_execution_active_def)
  have ih: "\<And>m q. fst (process_active_pipelines generate m q pss) \<noteq> Inl AssertionError"
    using Cons.IH Cons.prems by simp
  define m1 where "m1 = (if last_known_state (execution ps) = NEW then
      put_executions m [(execution ps)\<lparr>last_known_state := RUNNING\<rparr>] else m)"
  define q1 where "q1 = foldl (\<lambda>q node. snd (maybe_enqueue_cancellation_task m1 (pipeline ps) node q))
      q (get_stop_initiated_nodes ps)"
  have step: "process_active_pipelines generate m q (ps # pss) =
      (case init_task_generator m1 q1 (pipeline ps) (get_stop_initiated_nodes ps) of
         Inl err \<Rightarrow> (Inl err, m1, q1)
       | Inr generator \<Rightarrow>
           (case generate generator of
              (Inl err, m2) \<Rightarrow> (Inl err, m2, q1)
            | (Inr tasks, m2) \<Rightarrow>
                process_active_pipelines generate m2 (foldl enqueue q1 tasks) pss))"
    unfolding m1_def q1_def
    using process_active_pipelines_step [OF a, of generate m q pss] by (simp only: Let_def)
  show ?case
  proof (cases "init_task_generator m1 q1 (pipeline ps) (get_stop_initiated_nodes ps)")
    case (Inl err)
    then have "err \<noteq> AssertionError"
      by (auto simp: init_task_generator_def AssertionError_def split: if_splits)
    with Inl step show ?thesis by simp
  next
    case (Inr g)
    obtain r m2 where g: "generate g = (r, m2)" by (cases "generate g")
    show ?thesis
    proof (cases r)
      case (Inl err)
      with gen [of g] g have "err \<noteq> AssertionError" by auto
      with Inl Inr g step show ?thesis by simp
    next
      case (Inr tasks)
      with \<open>init_task_generator m1 q1 (pipeline ps) (get_stop_initiated_nodes ps) = Inr g\<close> g step ih
      show ?thesis by simp
    qed
  qed
qed

text \<open>
  C10. The assertion of \<^verbatim>\<open>_process_active_pipelines\<close> holds for every pipeline state
  that \<^verbatim>\<open>generate_tasks\<close> passes to it: the classification puts into the active list
  only states whose execution is in \<open>NEW\<close> or \<open>RUNNING\<close>. So the body of
  \<^verbatim>\<open>generate_tasks\<close> raises an \<^verbatim>\<open>AssertionError\<close> only if a collaborator does (a load
  or a task generator).
\<close>

theorem active_assertion_holds:
  "(classify pss [] [] = Inr (active_pipeline_states, stop_initiated_pipeline_states) \<longrightarrow>
      (\<forall>ps \<in> set active_pipeline_states.
         last_known_state (execution ps) = NEW \<or> last_known_state (execution ps) = RUNNING))
   \<and> ((\<forall>ctx. load_from_orchestrator_context ops m ctx \<noteq> Inl AssertionError) \<and>
       (\<forall>g. fst (generate g) \<noteq> Inl AssertionError) \<longrightarrow>
       fst (generate_tasks_body ops generate m q) \<noteq> Inl AssertionError)"
proof (intro conjI impI)
  assume "classify pss [] [] = Inr (active_pipeline_states, stop_initiated_pipeline_states)"
  then show "\<forall>ps \<in> set active_pipeline_states.
         last_known_state (execution ps) = NEW \<or> last_known_state (execution ps) = RUNNING"
    by (auto simp: classify_eq is_execution_active_def split: option.splits)
next
  assume h: "(\<forall>ctx. load_from_orchestrator_context ops m ctx \<noteq> Inl AssertionError) \<and>
       (\<forall>g. fst (generate g) \<noteq> Inl AssertionError)"
  show "fst (generate_tasks_body ops generate m q) \<noteq> Inl AssertionError"
  proof (cases "get_pipeline_states ops m")
    case (Inl err)
    then have "\<exists>c. load_from_orchestrator_context ops m c = Inl err"
      unfolding get_pipeline_states_def by (rule get_pipeline_states_loop_error)
    with h have "err \<noteq> AssertionError" by auto
    with Inl show ?thesis by (simp add: generate_tasks_body_def)
  next
    case (Inr pss')
    show ?thesis
    proof (cases "find neither pss'")
      case (Some bad)
      from generate_tasks_body_invalid [OF Inr Some, of generate q] show ?thesis
        by (simp add: AssertionError_def)
    next
      case None
      obtain m1 q1 where
        s: "process_stop_initiated_pipelines m q (filter is_stop_initiated pss') = (m1, q1)"
        by (cases "process_stop_initiated_pipelines m q (filter is_stop_initiated pss')")
      have "fst (process_active_pipelines generate m1 q1
          (filter (\<lambda>ps. \<not> is_stop_initiated ps \<and> is_execution_active (execution ps)) pss')) \<noteq>
          Inl AssertionError"
        using h by (intro process_active_no_assertion) auto
      with generate_tasks_body_classified [OF Inr None, of generate q] s show ?thesis by simp
    qed
  qed
qed

text \<open>
  On the example, where no collaborator raises an \<^verbatim>\<open>AssertionError\<close>: the tick ends
  without one, and the active list of the classification holds the state in \<open>NEW\<close>.
\<close>

theorem active_assertion_holds_witness:
  "classify [state1] [] [] = Inr ([state1], [])
   \<and> last_known_state (execution state1) = NEW
   \<and> (\<forall>ctx. load_from_orchestrator_context example_ops store1 ctx \<noteq> Inl AssertionError)
   \<and> (\<forall>g. fst (no_tasks g) \<noteq> Inl AssertionError)
   \<and> fst (generate_tasks_body example_ops no_tasks store1 []) \<noteq> Inl AssertionError"
proof -
  have c: "classify [state1] [] [] = Inr ([state1], [])"
    by (simp add: is_stop_initiated_def is_execution_active_def state1_def execution1_def)
  have n: "last_known_state (execution state1) = NEW"
    using active_assertion_holds [of "[state1]" "[state1]" "[]"] c
    by (simp add: state1_def execution1_def)
  have l: "\<forall>ctx. load_from_orchestrator_context example_ops store1 ctx \<noteq> Inl AssertionError"
    by (simp add: example_ops_def example_load_def AssertionError_def store1_def)
  have g: "\<forall>g. fst (no_tasks g) \<noteq> Inl AssertionError"
    by (simp add: no_tasks_def)
  have "fst (generate_tasks_body example_ops no_tasks store1 []) \<noteq> Inl AssertionError"
    using active_assertion_holds [of "[state1]" "[state1]" "[]" example_ops store1 no_tasks "[]"]
      l g by blast
  with c n l g show ?thesis by blast
qed


section \<open>Waiting for inactivation\<close>

lemma wait_loop_Nil [simp]: "wait_loop l e t iv dl [] stores = None"
  by simp

lemma wait_loop_Cons:
  "wait_loop l e t iv dl (now # clock) stores =
     (if dl - now > 0 then
        (case stores of
           [] \<Rightarrow> None
         | m # stores' \<Rightarrow>
             (case polled m e of
                None \<Rightarrow> Some (Inl IndexError, [])
              | Some False \<Rightarrow> Some (Inr (), [])
              | Some True \<Rightarrow>
                  (case clock of
                     [] \<Rightarrow> None
                   | now' # clock' \<Rightarrow>
                       map_option (\<lambda>(r, sleeps). (r, (max 0 (min iv (dl - now')), l) # sleeps))
                         (wait_loop l e t iv dl clock' stores'))))
      else Some (Inl (deadline_exceeded t), []))"
  by (simp add: polled_def deadline_exceeded_def split: list.splits)

declare wait_loop.simps [simp del]

lemma wait_loop_char:
  assumes "wait_loop l e t iv dl clock stores = Some (r, sleeps)"
  shows "2 * length sleeps < length clock \<and>
    (\<forall>i<length sleeps. i < length stores \<and> dl - clock ! (2 * i) > 0 \<and>
        polled (stores ! i) e = Some True \<and>
        sleeps ! i = (max 0 (min iv (dl - clock ! (2 * i + 1))), l)) \<and>
    (if dl - clock ! (2 * length sleeps) > 0 then
       length sleeps < length stores \<and>
       (case polled (stores ! length sleeps) e of
          None \<Rightarrow> r = Inl IndexError
        | Some active \<Rightarrow> \<not> active \<and> r = Inr ())
     else r = Inl (deadline_exceeded t))"
  using assms
proof (induction clock arbitrary: stores r sleeps rule: induct_list012)
  case 1
  then show ?case by simp
next
  case (2 now)
  then show ?case
    by (auto simp: wait_loop_Cons split: if_splits list.splits option.splits bool.splits)
next
  case (3 now now' clock)
  show ?case
  proof (cases "dl - now > 0")
    case False
    with "3.prems" show ?thesis by (auto simp: wait_loop_Cons)
  next
    case True
    note guard = this
    show ?thesis
    proof (cases stores)
      case Nil
      with "3.prems" guard show ?thesis by (simp add: wait_loop_Cons)
    next
      case (Cons m stores')
      show ?thesis
      proof (cases "polled m e")
        case None
        with "3.prems" guard Cons show ?thesis by (auto simp: wait_loop_Cons)
      next
        case (Some active)
        show ?thesis
        proof (cases active)
          case False
          with "3.prems" guard Cons Some show ?thesis by (auto simp: wait_loop_Cons)
        next
          case True
          with "3.prems" guard Cons Some obtain sleeps' where
            rec: "wait_loop l e t iv dl clock stores' = Some (r, sleeps')"
            and sl: "sleeps = (max 0 (min iv (dl - now')), l) # sleeps'"
            by (auto simp: wait_loop_Cons)
          from "3.IH"(1) [OF rec] have
            len: "2 * length sleeps' < length clock"
            and before: "\<forall>i<length sleeps'. i < length stores' \<and> dl - clock ! (2 * i) > 0 \<and>
                polled (stores' ! i) e = Some True \<and>
                sleeps' ! i = (max 0 (min iv (dl - clock ! (2 * i + 1))), l)"
            and final: "(if dl - clock ! (2 * length sleeps') > 0 then
                 length sleeps' < length stores' \<and>
                 (case polled (stores' ! length sleeps') e of
                    None \<Rightarrow> r = Inl IndexError
                  | Some active \<Rightarrow> \<not> active \<and> r = Inr ())
               else r = Inl (deadline_exceeded t))"
            by simp_all
          have "\<forall>i<length sleeps. i < length stores \<and> dl - (now # now' # clock) ! (2 * i) > 0 \<and>
                polled (stores ! i) e = Some True \<and>
                sleeps ! i = (max 0 (min iv (dl - (now # now' # clock) ! (2 * i + 1))), l)"
          proof (intro allI impI)
            fix i assume "i < length sleeps"
            show "i < length stores \<and> dl - (now # now' # clock) ! (2 * i) > 0 \<and>
                polled (stores ! i) e = Some True \<and>
                sleeps ! i = (max 0 (min iv (dl - (now # now' # clock) ! (2 * i + 1))), l)"
            proof (cases i)
              case 0
              with guard Cons Some True sl show ?thesis by simp
            next
              case (Suc j)
              with \<open>i < length sleeps\<close> sl have "j < length sleeps'" by simp
              with before Suc Cons sl show ?thesis by simp
            qed
          qed
          moreover have "2 * length sleeps < length (now # now' # clock)"
            using len sl by simp
          moreover have "(if dl - (now # now' # clock) ! (2 * length sleeps) > 0 then
                 length sleeps < length stores \<and>
                 (case polled (stores ! length sleeps) e of
                    None \<Rightarrow> r = Inl IndexError
                  | Some active \<Rightarrow> \<not> active \<and> r = Inr ())
               else r = Inl (deadline_exceeded t))"
            using final sl Cons by simp
          ultimately show ?thesis by blast
        qed
      qed
    qed
  qed
qed


lemma wait_for_inactivation_Cons:
  "wait_for_inactivation l e t (start # clock) stores =
     map_option (to_status_not_ok_error ''_wait_for_inactivation'')
       (wait_loop l e t (min 10 (t / 4)) (start + t) clock stores)"
  by (simp add: wait_for_inactivation_def wait_for_inactivation_body_def)

lemma to_status_not_ok_error_status:
  "to_status_not_ok_error fn_name x = (Inl err, s) \<Longrightarrow> \<exists>c msg. err = StatusNotOkError c msg"
  by (cases "(fn_name, x)" rule: to_status_not_ok_error.cases) auto

lemma to_status_not_ok_error_snd: "snd (to_status_not_ok_error fn_name x) = snd x"
  by (cases "(fn_name, x)" rule: to_status_not_ok_error.cases) auto

lemma to_status_not_ok_error_idem:
  "to_status_not_ok_error outer (to_status_not_ok_error inner x) = to_status_not_ok_error inner x"
  by (cases "(inner, x)" rule: to_status_not_ok_error.cases) auto

lemma wait_for_inactivation_status:
  assumes "wait_for_inactivation l e t clock stores = Some (Inl err, sleeps)"
  shows "\<exists>c msg. err = StatusNotOkError c msg"
proof (cases "wait_for_inactivation_body l e t clock stores")
  case None
  with assms show ?thesis by (simp add: wait_for_inactivation_def)
next
  case (Some x)
  with assms have "to_status_not_ok_error ''_wait_for_inactivation'' x = (Inl err, sleeps)"
    by (simp add: wait_for_inactivation_def)
  then show ?thesis by (rule to_status_not_ok_error_status)
qed

lemma wait_for_inactivation_level:
  assumes "wait_for_inactivation l e t clock stores = Some (r, sleeps)"
  shows "\<forall>s \<in> set sleeps. snd s = l"
proof (cases clock)
  case Nil
  with assms show ?thesis
    by (simp add: wait_for_inactivation_def wait_for_inactivation_body_def)
next
  case (Cons start clock')
  with assms obtain x where x: "wait_loop l e t (min 10 (t / 4)) (start + t) clock' stores = Some x"
    and "to_status_not_ok_error ''_wait_for_inactivation'' x = (r, sleeps)"
    by (auto simp: wait_for_inactivation_Cons)
  then have "snd x = sleeps"
    using to_status_not_ok_error_snd [of "''_wait_for_inactivation''" x] by simp
  with x have "wait_loop l e t (min 10 (t / 4)) (start + t) clock' stores = Some (fst x, sleeps)"
    by (cases x) simp
  from wait_loop_char [OF this]
  have "\<forall>i<length sleeps. snd (sleeps ! i) = l" by simp
  then show ?thesis by (metis in_set_conv_nth)
qed


lemma example_polls:
  "polled store2 finished_run = Some True" "polled store3 finished_run = Some False"
  "polled store2 trainer_run = Some True" "polled store3 trainer_run = Some False"
  by (simp_all add: polled_def get_executions_by_id_def List.map_filter_simps store2_def
      store3_def put_executions_def finished_run_def trainer_run_def is_execution_active_def)





section \<open>Stopping a node\<close>

lemma stop_after_wait:
  "map_option (to_status_not_ok_error fn_name)
     (map_option (\<lambda>(r, sleeps). (r, m', sleeps)) (wait_for_inactivation l e t clock stores)) =
   map_option (\<lambda>(r, sleeps). (r, m', sleeps)) (wait_for_inactivation l e t clock stores)"
proof (cases "wait_for_inactivation l e t clock stores")
  case None
  then show ?thesis by simp
next
  case (Some x)
  obtain r sleeps where x: "x = (r, sleeps)" by (cases x)
  show ?thesis
  proof (cases r)
    case (Inr u)
    with Some x show ?thesis by simp
  next
    case (Inl err)
    with Some x wait_for_inactivation_status [of l e t clock stores err sleeps]
    obtain c msg where "err = StatusNotOkError c msg" by auto
    with Some x Inl show ?thesis by simp
  qed
qed

text \<open>
  C5. Let the load of the pipeline state succeed. If the number of nodes of the IR whose
  id is the node id of the uid is not one, \<^verbatim>\<open>stop_node\<close> fails with \<open>INTERNAL\<close> (once
  the state is committed on the way out of the \<^verbatim>\<open>with\<close> block). If it is one and
  \<^verbatim>\<open>initiate_node_stop\<close> and the commit succeed, \<^verbatim>\<open>stop_node\<close> reads the node's
  executions from the store as committed: with no active one it returns at once, with
  no reading of the clock, no poll and no sleep; with more than one active it fails with
  \<open>INTERNAL\<close>; with exactly one it is the wait for that execution with the timeout, run at
  the caller's level \<open>l\<close> of the lock and not at the level \<open>Suc l\<close> of the locked block,
  so that every sleep is at level \<open>l\<close>.
\<close>

theorem stop_node_outcomes:
  assumes "load ops m (pipeline_uid node_uid) = Inr ps"
  shows
    "(length (filter (\<lambda>n. node_info_id n = node_id node_uid) (nodes (pipeline ps))) \<noteq> 1 \<longrightarrow>
        commit ops m ps = (Inr ps', m') \<longrightarrow>
        stop_node ops l m node_uid t clock stores =
          Some (Inl (StatusNotOkError INTERNAL
                  [Lit ''`stop_node` operation failed, unable to find node to stop: '',
                   UidOfNode node_uid]), m', []))
     \<and> (filter (\<lambda>n. node_info_id n = node_id node_uid) (nodes (pipeline ps)) = [node] \<longrightarrow>
        initiate_node_stop ops ps node_uid = Inr stopped \<longrightarrow>
        commit ops m stopped = (Inr committed, m') \<longrightarrow>
          (filter is_execution_active (get_executions m' node) = [] \<longrightarrow>
             stop_node ops l m node_uid t clock stores = Some (Inr (), m', []))
          \<and> (length (filter is_execution_active (get_executions m' node)) > 1 \<longrightarrow>
             stop_node ops l m node_uid t clock stores =
               Some (Inl (StatusNotOkError INTERNAL
                       [Lit ''Unexpected multiple active executions for node: '',
                        UidOfNode node_uid]), m', []))
          \<and> (\<forall>e. filter is_execution_active (get_executions m' node) = [e] \<longrightarrow>
                stop_node ops l m node_uid t clock stores =
                  map_option (\<lambda>(r, sleeps). (r, m', sleeps))
                    (wait_for_inactivation l e t clock stores)
                \<and> (\<forall>r m'' sleeps.
                      stop_node ops l m node_uid t clock stores = Some (r, m'', sleeps) \<longrightarrow>
                      (\<forall>s \<in> set sleeps. snd s = l))))"
proof (intro conjI impI allI)
  assume "length (filter (\<lambda>n. node_info_id n = node_id node_uid) (nodes (pipeline ps))) \<noteq> 1"
    and "commit ops m ps = (Inr ps', m')"
  with assms show "stop_node ops l m node_uid t clock stores =
          Some (Inl (StatusNotOkError INTERNAL
                  [Lit ''`stop_node` operation failed, unable to find node to stop: '',
                   UidOfNode node_uid]), m', [])"
    by (simp add: stop_node_def stop_node_body_def pipeline_ops_lock_def stop_node_locked_def
        with_pipeline_state_def stop_node_find_def get_all_pipeline_nodes_def Let_def)
next
  assume f: "filter (\<lambda>n. node_info_id n = node_id node_uid) (nodes (pipeline ps)) = [node]"
    and i: "initiate_node_stop ops ps node_uid = Inr stopped"
    and c: "commit ops m stopped = (Inr committed, m')"
  have locked: "with_pipeline_state ops m (load ops m (pipeline_uid node_uid))
      (stop_node_find ops node_uid) = (Inr (node, committed), m')"
    using assms f i c
    by (simp add: with_pipeline_state_def stop_node_find_def get_all_pipeline_nodes_def Let_def)
  {
    assume "filter is_execution_active (get_executions m' node) = []"
    then show "stop_node ops l m node_uid t clock stores = Some (Inr (), m', [])"
      using locked
      by (simp add: stop_node_def stop_node_body_def pipeline_ops_lock_def stop_node_locked_def
          Let_def)
  next
    assume "length (filter is_execution_active (get_executions m' node)) > 1"
    then show "stop_node ops l m node_uid t clock stores =
               Some (Inl (StatusNotOkError INTERNAL
                       [Lit ''Unexpected multiple active executions for node: '',
                        UidOfNode node_uid]), m', [])"
      using locked
      by (auto simp: stop_node_def stop_node_body_def pipeline_ops_lock_def stop_node_locked_def
          Let_def)
  next
    fix e
    assume "filter is_execution_active (get_executions m' node) = [e]"
    then show w: "stop_node ops l m node_uid t clock stores =
                  map_option (\<lambda>(r, sleeps). (r, m', sleeps))
                    (wait_for_inactivation l e t clock stores)"
      using locked
      by (simp add: stop_node_def stop_node_body_def pipeline_ops_lock_def stop_node_locked_def
          Let_def stop_after_wait)
    fix r m'' sleeps
    assume "stop_node ops l m node_uid t clock stores = Some (r, m'', sleeps)"
    with w have "map_option (\<lambda>(r, sleeps). (r, m', sleeps))
        (wait_for_inactivation l e t clock stores) = Some (r, m'', sleeps)" by simp
    then have "wait_for_inactivation l e t clock stores = Some (r, sleeps)"
      by (cases "wait_for_inactivation l e t clock stores") auto
    then show "\<forall>s \<in> set sleeps. snd s = l" by (rule wait_for_inactivation_level)
  }
qed

text \<open>
  On the example: a node id that the IR does not have; \<open>Trainer\<close> with no execution in
  the store, where \<^verbatim>\<open>stop_node\<close> returns though it is given no clock reading; with two
  running executions; and with one, where it sleeps once at the caller's level 0 until the
  run has finished.
\<close>

theorem stop_node_outcomes_witness:
  "load example_ops store1 (pipeline_uid trainer_uid) = Inr state1
   \<and> stop_node example_ops 0 store1 (NodeUid (PipelineUid ''pipeline1'') ''Evaluator'') 40 [] [] =
       Some (Inl (StatusNotOkError INTERNAL
               [Lit ''`stop_node` operation failed, unable to find node to stop: '',
                UidOfNode (NodeUid (PipelineUid ''pipeline1'') ''Evaluator'')]),
             put_executions store1 [execution1], [])
   \<and> stop_node example_ops 0 store1 trainer_uid 40 [] [] =
       Some (Inr (), put_executions store1 [execution1\<lparr>node_stop_initiated := [trainer_uid]\<rparr>], [])
   \<and> stop_node example_ops 0 store4 trainer_uid 40 [] [] =
       Some (Inl (StatusNotOkError INTERNAL
               [Lit ''Unexpected multiple active executions for node: '', UidOfNode trainer_uid]),
             put_executions store4 [execution1\<lparr>node_stop_initiated := [trainer_uid]\<rparr>], [])
   \<and> stop_node example_ops 0 store2 trainer_uid 40 [0, 1, 2, 12, 13] [store2, store3] =
       Some (Inr (), put_executions store2 [execution1\<lparr>node_stop_initiated := [trainer_uid]\<rparr>],
             [(10, 0)])"
proof -
  let ?other = "NodeUid (PipelineUid ''pipeline1'') ''Evaluator''"
  let ?flagged = "execution1\<lparr>node_stop_initiated := [trainer_uid]\<rparr>"
  have ld: "load example_ops store1 (pipeline_uid trainer_uid) = Inr state1"
    "load example_ops store1 (pipeline_uid ?other) = Inr state1"
    "load example_ops store2 (pipeline_uid trainer_uid) = Inr state1"
    "load example_ops store4 (pipeline_uid trainer_uid) = Inr state1"
    by (simp_all add: example_ops_def trainer_uid_def example_load_def store1_def store2_def
        store4_def is_execution_active_def execution1_def state1_def)
  have nd: "filter (\<lambda>n. node_info_id n = ''Evaluator'') (nodes (pipeline state1)) = []"
    "filter (\<lambda>n. node_info_id n = node_id trainer_uid) (nodes (pipeline state1)) = [trainer]"
    by (simp_all add: state1_def pipeline1_def trainer_def trainer_uid_def)
  have cm: "\<And>m ps. commit example_ops m ps = (Inr ps, put_executions m [execution ps])"
    by (simp add: example_ops_def)
  have st: "initiate_node_stop example_ops state1 trainer_uid = Inr (state1\<lparr>execution := ?flagged\<rparr>)"
    by (simp add: example_ops_def state1_def execution1_def)
  have ex: "execution state1 = execution1" "execution (state1\<lparr>execution := ?flagged\<rparr>) = ?flagged"
    by (simp_all add: state1_def)
  have ge: "get_executions (put_executions store1 [?flagged]) trainer = []"
    "get_executions (put_executions store2 [?flagged]) trainer = [trainer_run]"
    "get_executions (put_executions store4 [?flagged]) trainer = [trainer_run, second_run]"
    by (simp_all add: get_executions_def get_executions_by_id_def List.map_filter_simps
        put_executions_def store1_def store2_def store4_def trainer_def execution1_def)
  have ac: "is_execution_active trainer_run" "is_execution_active second_run"
    by (simp_all add: is_execution_active_def trainer_run_def second_run_def)
  have wt: "wait_for_inactivation 0 trainer_run 40 [0, 1, 2, 12, 13] [store2, store3] =
     Some (Inr (), [(10, 0)])"
    by (simp add: wait_for_inactivation_Cons wait_loop_Cons example_polls)
  have a: "stop_node example_ops 0 store1 ?other 40 [] [] =
       Some (Inl (StatusNotOkError INTERNAL
               [Lit ''`stop_node` operation failed, unable to find node to stop: '',
                UidOfNode ?other]), put_executions store1 [execution1], [])"
    using stop_node_outcomes [OF ld(2), where ps' = state1
        and m' = "put_executions store1 [execution1]" and l = 0 and t = 40 and clock = "[]"
        and stores = "[]"]
    by (simp add: nd cm ex)
  have b: "stop_node example_ops 0 store1 trainer_uid 40 [] [] =
       Some (Inr (), put_executions store1 [?flagged], [])"
    using stop_node_outcomes [OF ld(1), where node = trainer
        and stopped = "state1\<lparr>execution := ?flagged\<rparr>" and committed = "state1\<lparr>execution := ?flagged\<rparr>"
        and m' = "put_executions store1 [?flagged]" and l = 0 and t = 40 and clock = "[]"
        and stores = "[]"]
    by (simp add: nd cm st ex ge)
  have c: "stop_node example_ops 0 store4 trainer_uid 40 [] [] =
       Some (Inl (StatusNotOkError INTERNAL
               [Lit ''Unexpected multiple active executions for node: '', UidOfNode trainer_uid]),
             put_executions store4 [?flagged], [])"
    using stop_node_outcomes [OF ld(4), where node = trainer
        and stopped = "state1\<lparr>execution := ?flagged\<rparr>" and committed = "state1\<lparr>execution := ?flagged\<rparr>"
        and m' = "put_executions store4 [?flagged]" and l = 0 and t = 40 and clock = "[]"
        and stores = "[]"]
    by (simp add: nd cm st ex ge ac)
  have d: "stop_node example_ops 0 store2 trainer_uid 40 [0, 1, 2, 12, 13] [store2, store3] =
       Some (Inr (), put_executions store2 [?flagged], [(10, 0)])"
    using stop_node_outcomes [OF ld(3), where node = trainer
        and stopped = "state1\<lparr>execution := ?flagged\<rparr>" and committed = "state1\<lparr>execution := ?flagged\<rparr>"
        and m' = "put_executions store2 [?flagged]" and l = 0 and t = 40
        and clock = "[0, 1, 2, 12, 13]" and stores = "[store2, store3]"]
    by (simp add: nd cm st ex ge ac wt)
  from ld(1) a b c d show ?thesis by simp
qed

section \<open>The error policy of the entry points\<close>

lemma reraised_to_status_not_ok_error:
  "reraised fn_name x (to_status_not_ok_error fn_name x)"
  by (cases "(fn_name, x)" rule: to_status_not_ok_error.cases) (simp_all add: reraised_def)

lemma rel_option_reraised:
  "rel_option (reraised fn_name) x (map_option (to_status_not_ok_error fn_name) x)"
  by (cases x) (simp_all add: reraised_to_status_not_ok_error)

text \<open>
  C9. Each of the five public operations relates to its body as the error policy says: a
  \<^verbatim>\<open>StatusNotOkError\<close> raised in the body is raised by the operation with the same code
  and message; any other exception is raised as a \<^verbatim>\<open>StatusNotOkError\<close> with code
  \<open>UNKNOWN\<close> whose message is the operation's name followed by the message of the
  exception; and a result is returned as the body returns it.
\<close>

theorem public_operations_reraise:
  "reraised ''initiate_pipeline_start'' (initiate_pipeline_start_body ops m p)
     (initiate_pipeline_start ops l m p)
   \<and> rel_option (reraised ''stop_pipeline'') (stop_pipeline_body ops l m uid t clock stores)
       (stop_pipeline ops l m uid t clock stores)
   \<and> reraised ''initiate_node_start'' (initiate_node_start_body ops m node_uid)
       (initiate_node_start ops l m node_uid)
   \<and> rel_option (reraised ''stop_node'') (stop_node_body ops l m node_uid t clock stores)
       (stop_node ops l m node_uid t clock stores)
   \<and> reraised ''generate_tasks'' (generate_tasks_body ops generate m q)
       (generate_tasks ops generate l m q)"
  by (simp add: initiate_pipeline_start_def stop_pipeline_def initiate_node_start_def
      stop_node_def generate_tasks_def pipeline_ops_lock_def reraised_to_status_not_ok_error
      rel_option_reraised)

text \<open>
  On the example: the \<open>ALREADY_EXISTS\<close> of \<^verbatim>\<open>PipelineState.new\<close> reaches the caller of
  \<^verbatim>\<open>initiate_pipeline_start\<close> unchanged, and a \<^verbatim>\<open>RuntimeError\<close> of a load becomes
  \<open>UNKNOWN\<close> with its message kept.
\<close>

theorem public_operations_reraise_witness:
  "initiate_pipeline_start_body example_ops store1 pipeline1 =
     (Inl (StatusNotOkError ALREADY_EXISTS [Lit ''pipeline exists'']), store1)
   \<and> initiate_pipeline_start example_ops 0 store1 pipeline1 =
       (Inl (StatusNotOkError ALREADY_EXISTS [Lit ''pipeline exists'']), store1)
   \<and> generate_tasks_body
        (example_ops\<lparr>load_from_orchestrator_context :=
           (\<lambda>m ctx. Inl (PyException ''RuntimeError'' [Lit ''connection lost'']))\<rparr>)
        no_tasks store1 [] =
       (Inl (PyException ''RuntimeError'' [Lit ''connection lost'']), store1, [])
   \<and> generate_tasks
        (example_ops\<lparr>load_from_orchestrator_context :=
           (\<lambda>m ctx. Inl (PyException ''RuntimeError'' [Lit ''connection lost'']))\<rparr>)
        no_tasks 0 store1 [] =
       (Inl (StatusNotOkError UNKNOWN
          [Lit ''`generate_tasks` error: '', Lit ''connection lost'']), store1, [])"
proof -
  let ?ops = "example_ops\<lparr>load_from_orchestrator_context :=
           (\<lambda>m ctx. Inl (PyException ''RuntimeError'' [Lit ''connection lost'']))\<rparr>"
  have a: "initiate_pipeline_start_body example_ops store1 pipeline1 =
     (Inl (StatusNotOkError ALREADY_EXISTS [Lit ''pipeline exists'']), store1)"
    by (simp add: initiate_pipeline_start_body_def example_ops_def with_pipeline_state_def)
  have b: "generate_tasks_body ?ops no_tasks store1 [] =
       (Inl (PyException ''RuntimeError'' [Lit ''connection lost'']), store1, [])"
    by (simp add: generate_tasks_body_def get_pipeline_states_def get_orchestrator_contexts_def
        store1_def)
  have c: "initiate_pipeline_start example_ops 0 store1 pipeline1 =
       (Inl (StatusNotOkError ALREADY_EXISTS [Lit ''pipeline exists'']), store1)"
    using public_operations_reraise [where ops = example_ops and m = store1 and p = pipeline1
        and l = 0] a
    by (simp add: reraised_def)
  have d: "generate_tasks ?ops no_tasks 0 store1 [] =
       (Inl (StatusNotOkError UNKNOWN
          [Lit ''`generate_tasks` error: '', Lit ''connection lost'']), store1, [])"
    using public_operations_reraise [where ops = ?ops and m = store1 and generate = no_tasks
        and q = "[]" and l = 0] b
    by (simp add: reraised_def)
  from a b c d show ?thesis by simp
qed


end
